theory Spec2Isabelle
  imports Main "HOL-Library.Word" "HOL-Library.FSet" "HOL-Library.Multiset"
begin

unbundle bit_operations_syntax

section \<open>Data model of the jump target manager\<close>

type_synonym u8 = "8 word"
type_synonym u32 = "32 word"
type_synonym u64 = "64 word"

text \<open>
  The C++ code stops in three ways that are not a normal return: a failed \<open>assert\<close>,
  an \<open>llvm_unreachable\<close>, and plain undefined behaviour (a read outside a buffer, a
  dereferenced null pointer or end iterator). Every function that can stop this way returns
  \<open>fault + 'a\<close>, with \<open>Inl\<close> for the fault.
\<close>

datatype fault = AssertionFailure | Unreachable | UndefinedBehaviour

text \<open>
  \<open>SegmentInfo\<close>: one loaded region of the source binary. \<open>RawData\<close> holds the raw bytes of
  the initializer of \<open>Segment.Variable\<close>.
\<close>

record SegmentInfo =
  StartVirtualAddress :: u64
  EndVirtualAddress :: u64
  IsReadable :: bool
  IsWriteable :: bool
  IsExecutable :: bool
  RawData :: "u8 list"

text \<open>
  Values as \<open>isSumJump\<close>, \<open>readConstantInt\<close> and the direct branch pass look at them:
  an integer constant with its bit width and its zero-extended value, any other
  \<open>llvm::Constant\<close>, a load, a binary operator with its opcode and two operands, and
  every other kind of value (call results, phi nodes, casts, arguments).
\<close>

datatype BinaryOps =
  Add | FAdd | Sub | FSub | Mul | FMul | UDiv | SDiv | FDiv | URem | SRem | FRem
  | Shl | LShr | AShr | And | Or | Xor

datatype Value =
  ConstantInt nat u64
  | OtherConstant
  | LoadInst Value
  | BinaryOperator BinaryOps Value Value
  | OtherValue

text \<open>
  \<open>Architecture\<close>: the pointer width in bits, the byte order, and the instruction alignment
  rule of the source architecture. The rule is consulted through \<open>isInstructionAligned\<close>
  only, so it is kept as a predicate on addresses.
\<close>

record Architecture =
  pointerSize :: nat
  isLittleEndian :: bool
  alignmentRule :: "u64 \<Rightarrow> bool"

subsection \<open>The IR the manager works on\<close>

text \<open>
  Blocks and instructions are referred to by pointer in the C++ code; here a pointer is a
  handle, a natural number. A non-null \<open>BasicBlock *\<close> is a \<open>BasicBlock\<close>, and a function
  that may return \<open>nullptr\<close> returns an \<open>option\<close>.

  An instruction is one of the kinds the manager tells apart: a call with its callee (the
  name of the called function, \<open>None\<close> for an indirect call, where \<open>getCalledFunction()\<close>
  is null) and its arguments, a store with its value operand and the handle of its pointer
  operand, a branch with its successors, a switch with its default destination and its
  case table, \<open>unreachable\<close>, and anything else.
\<close>

type_synonym BasicBlock = nat
type_synonym Instruction = nat

datatype Instr =
  CallInst "string option" "Value list"
  | StoreInst Value nat
  | BranchInst "BasicBlock list"
  | SwitchInst BasicBlock "(u64 \<times> BasicBlock) list"
  | UnreachableInst
  | OtherInst

text \<open>
  An \<open>llvm::Module\<close>, as far as the manager looks at it: whether its data layout is
  little-endian (\<open>getDataLayout().isLittleEndian()\<close>).
\<close>

record Module =
  DataLayoutLittleEndian :: bool

text \<open>
  An \<open>llvm::Function\<close>: its parent module, its blocks in order, the instruction list of each
  block, what each instruction is, and the name of each block.
\<close>

record Function =
  Parent :: Module
  BasicBlocks :: "BasicBlock list"
  InstList :: "BasicBlock \<Rightarrow> Instruction list"
  InstrAt :: "Instruction \<Rightarrow> Instr"
  BlockName :: "BasicBlock \<Rightarrow> string"

text \<open>
  The successors of a block are those of its last instruction when that is a branch or a
  switch (\<open>succ_begin\<close>, \<open>succ_end\<close>). The predecessors of a block are the blocks that have it
  as a successor, once per edge (\<open>pred_begin\<close>, \<open>pred_end\<close>). LLVM lists them in the order of
  the use list of the block, which depends on how the function was built and is not part
  of this model; they are listed here in the order of the function's block list. Nothing
  below is stated for an input on which the two orders lead \<open>getPC\<close> to different answers.
\<close>

definition successors :: "Function \<Rightarrow> BasicBlock \<Rightarrow> BasicBlock list" where
  "successors F BB =
     (case InstList F BB of
        [] \<Rightarrow> []
      | I # Is \<Rightarrow>
          (case InstrAt F (last (I # Is)) of
             BranchInst targets \<Rightarrow> targets
           | SwitchInst Default Cases \<Rightarrow> Default # map snd Cases
           | _ \<Rightarrow> []))"

definition predecessors :: "Function \<Rightarrow> BasicBlock \<Rightarrow> BasicBlock list" where
  "predecessors F BB =
     concat (map (\<lambda>P. map (\<lambda>S. P) (filter (\<lambda>S. S = BB) (successors F P))) (BasicBlocks F))"

definition hasTerminator :: "Function \<Rightarrow> BasicBlock \<Rightarrow> bool" where
  "hasTerminator F BB =
     (case InstList F BB of
        [] \<Rightarrow> False
      | I # Is \<Rightarrow>
          (case InstrAt F (last (I # Is)) of
             BranchInst targets \<Rightarrow> True
           | SwitchInst Default Cases \<Rightarrow> True
           | UnreachableInst \<Rightarrow> True
           | _ \<Rightarrow> False))"

text \<open>\<open>Instruction::getParent\<close>: the block that holds the instruction, if any.\<close>

definition getParent :: "Function \<Rightarrow> Instruction \<Rightarrow> BasicBlock option" where
  "getParent F I = find (\<lambda>BB. I \<in> set (InstList F BB)) (BasicBlocks F)"

text \<open>Allocation returns a handle that is not in use; handle 0 is never allocated.\<close>

definition fresh :: "nat list \<Rightarrow> nat" where
  "fresh used = Suc (fold max used 0)"

definition allInstructions :: "Function \<Rightarrow> Instruction list" where
  "allInstructions F = concat (map (InstList F) (BasicBlocks F))"

text \<open>\<open>BasicBlock::Create(Context, Name, TheFunction)\<close>: a new empty block, last in the function.\<close>

definition Create :: "Function \<Rightarrow> string \<Rightarrow> BasicBlock \<times> Function" where
  "Create F Name =
     (let New = fresh (BasicBlocks F)
      in (New, F\<lparr>BasicBlocks := BasicBlocks F @ [New],
                 InstList := (InstList F)(New := []),
                 BlockName := (BlockName F)(New := Name)\<rparr>))"

text \<open>An \<open>IRBuilder\<close> call that appends one instruction at the end of a block.\<close>

definition appendInst :: "Function \<Rightarrow> BasicBlock \<Rightarrow> Instr \<Rightarrow> Instruction \<times> Function" where
  "appendInst F BB new =
     (let I = fresh (allInstructions F)
      in (I, F\<lparr>InstList := (InstList F)(BB := InstList F BB @ [I]),
               InstrAt := (InstrAt F)(I := new)\<rparr>))"

text \<open>
  \<open>BasicBlock::splitBasicBlock(I)\<close>: the instructions from \<open>I\<close> on move to a new block, placed
  right after the old one, and the old block ends with a branch to the new one. LLVM
  asserts that the block has a terminator.
\<close>

fun insertAfter :: "BasicBlock \<Rightarrow> BasicBlock \<Rightarrow> BasicBlock list \<Rightarrow> BasicBlock list" where
  "insertAfter BB New [] = [New]"
| "insertAfter BB New (B # Bs) = (if B = BB then B # New # Bs else B # insertAfter BB New Bs)"

definition splitBasicBlock :: "Function \<Rightarrow> BasicBlock \<Rightarrow> Instruction \<Rightarrow> fault + BasicBlock \<times> Function" where
  "splitBasicBlock F BB I =
     (if \<not> hasTerminator F BB then Inl AssertionFailure
      else
        let New = fresh (BasicBlocks F);
            BI = fresh (allInstructions F)
        in Inr (New,
                F\<lparr>BasicBlocks := insertAfter BB New (BasicBlocks F),
                  InstList := (InstList F)
                    (BB := takeWhile (\<lambda>J. J \<noteq> I) (InstList F BB) @ [BI],
                     New := dropWhile (\<lambda>J. J \<noteq> I) (InstList F BB)),
                  InstrAt := (InstrAt F)(BI := BranchInst [New]),
                  BlockName := (BlockName F)(New := [])\<rparr>))"

text \<open>
  \<open>SwitchInst::addCase\<close> on the instruction a \<open>SwitchInst *\<close> points to: the case is appended
  to the table. A pointer that does not point to a switch is undefined behaviour. The
  literal \<open>OnVal\<close> is given by its value, zero-extended to 64 bits.
\<close>

definition addCase :: "Function \<Rightarrow> Instruction \<Rightarrow> u64 \<Rightarrow> BasicBlock \<Rightarrow> fault + Function" where
  "addCase F Switch OnVal Dest =
     (case InstrAt F Switch of
        SwitchInst Default Cases \<Rightarrow>
          Inr (F\<lparr>InstrAt := (InstrAt F)(Switch := SwitchInst Default (Cases @ [(OnVal, Dest)]))\<rparr>)
      | _ \<Rightarrow> Inl UndefinedBehaviour)"

definition switchCases :: "Function \<Rightarrow> Instruction \<Rightarrow> (u64 \<times> BasicBlock) list" where
  "switchCases F Switch =
     (case InstrAt F Switch of SwitchInst Default Cases \<Rightarrow> Cases | _ \<Rightarrow> [])"

subsection \<open>The state of the manager\<close>

text \<open>
  The program counter register is a variable of the module, a pointer to an integer: its
  handle, which is what the pointer operand of a store is compared with, and the bit width
  of the integer type it points to (\<open>PCReg->getType()->getPointerElementType()\<close>).
\<close>

record GlobalVariable =
  VariableHandle :: nat
  ElementBits :: nat

text \<open>
  The members of \<open>JumpTargetManager\<close> that the functions below read or write. \<open>PCReg\<close> is the
  program counter variable; \<open>DispatcherSwitch\<close> is the handle of the switch instruction of
  the dispatcher, whose case table lives in \<open>TheFunction\<close>.
\<close>

record JumpTargetManager =
  TheFunction :: Function
  OriginalInstructionAddresses :: "u64 \<rightharpoonup> Instruction"
  JumpTargets :: "u64 \<rightharpoonup> BasicBlock"
  Unexplored :: "(u64 \<times> BasicBlock) list"
  Visited :: "BasicBlock fset"
  ReliablePCs :: "u64 fset"
  PCReg :: GlobalVariable
  Dispatcher :: BasicBlock
  DispatcherSwitch :: Instruction
  ExecutableRanges :: "(u64 \<times> u64) list"
  Segments :: "SegmentInfo list"
  SourceArchitecture :: Architecture
  EnableOSRA :: bool

text \<open>
  \<open>TheModule\<close> is the parent of \<open>TheFunction\<close>, as the constructor sets it
  (\<open>TheModule(*TheFunction->getParent())\<close>).
\<close>

definition TheModule :: "JumpTargetManager \<Rightarrow> Module" where
  "TheModule M = Parent (TheFunction M)"

text \<open>The case table of the dispatcher switch.\<close>

definition dispatcherCases :: "JumpTargetManager \<Rightarrow> (u64 \<times> BasicBlock) list" where
  "dispatcherCases M = switchCases (TheFunction M) (DispatcherSwitch M)"

section \<open>Reading constants from the segments\<close>

text \<open>
  \<open>llvm::support::endian::read<T, endian, 1>\<close> applied to the \<open>sizeof(T)\<close> bytes at the
  pointer: the first byte is the least significant one in little-endian order, the most
  significant one in big-endian order.
\<close>

fun read_little :: "u8 list \<Rightarrow> u64" where
  "read_little [] = 0"
| "read_little (b # bs) = ucast b + 256 * read_little bs"

definition read_big :: "u8 list \<Rightarrow> u64" where
  "read_big bs = read_little (rev bs)"

definition endian_read :: "bool \<Rightarrow> u8 list \<Rightarrow> u64" where
  "endian_read little bs = (if little then read_little bs else read_big bs)"

text \<open>
  A read of \<open>n\<close> bytes at \<open>RawDataPtr + Offset\<close>. The C++ code does not check the offset
  against the length of the buffer; a read that leaves the buffer is undefined behaviour.
\<close>

definition read_at :: "bool \<Rightarrow> u8 list \<Rightarrow> nat \<Rightarrow> nat \<Rightarrow> fault + u64" where
  "read_at little raw off n =
     (if off + n \<le> length raw then Inr (endian_read little (take n (drop off raw)))
      else Inl UndefinedBehaviour)"

text \<open>The test of the loop of \<open>readConstantInt\<close>, in 64-bit unsigned arithmetic.\<close>

definition segment_matches :: "SegmentInfo \<Rightarrow> u64 \<Rightarrow> u32 \<Rightarrow> bool" where
  "segment_matches Segment Address Size \<longleftrightarrow>
     StartVirtualAddress Segment \<le> Address
     \<and> Address + ucast Size < EndVirtualAddress Segment
     \<and> IsReadable Segment"

text \<open>
  \<open>JumpTargetManager::readConstantInt\<close>, from the point where \<open>Address\<close> has been computed.
  The first argument is \<open>DL.isLittleEndian()\<close>. The loop returns from the first segment
  that passes the test; \<open>Inr None\<close> is the \<open>nullptr\<close> returned when no segment does. A
  one byte read is always done with \<open>endianness::little\<close>.
\<close>

fun readConstantInt :: "bool \<Rightarrow> SegmentInfo list \<Rightarrow> u64 \<Rightarrow> u32 \<Rightarrow> fault + Value option" where
  "readConstantInt little [] Address Size = Inr None"
| "readConstantInt little (Segment # Segs) Address Size =
     (if segment_matches Segment Address Size then
        (let Offset = unat (Address - StartVirtualAddress Segment);
             raw = RawData Segment;
             result = (if Size = 1 then read_at True raw Offset 1
                       else if Size = 2 then read_at little raw Offset 2
                       else if Size = 4 then read_at little raw Offset 4
                       else if Size = 8 then read_at little raw Offset 8
                       else Inl Unreachable)
         in case result of
              Inl f \<Rightarrow> Inl f
            | Inr v \<Rightarrow> Inr (Some (ConstantInt (unat (Size * 8)) v)))
      else readConstantInt little Segs Address Size)"

text \<open>
  \<open>JumpTargetManager::readConstantInt\<close> on a manager: the byte order is the one of the data
  layout of \<open>TheModule\<close> (\<open>DL = TheModule.getDataLayout()\<close>), and the segments are the
  member \<open>Segments\<close>. \<open>SourceArchitecture\<close> is not consulted.
\<close>

definition JumpTargetManager_readConstantInt :: "JumpTargetManager \<Rightarrow> u64 \<Rightarrow> u32 \<Rightarrow> fault + Value option" where
  "JumpTargetManager_readConstantInt M Address Size =
     readConstantInt (DataLayoutLittleEndian (TheModule M)) (Segments M) Address Size"

section \<open>Acquiring blocks\<close>

text \<open>
  Modelled from the spec: \<open>isExecutableAddress\<close> is declared in \<open>jumptargetmanager.h\<close>,
  which is not among the sources. The spec asks that the address lie within
  \<open>ExecutableRanges\<close>, the \<open>(start, end)\<close> pairs of the executable segments.
\<close>

definition isExecutableAddress :: "JumpTargetManager \<Rightarrow> u64 \<Rightarrow> bool" where
  "isExecutableAddress M Address =
     list_ex (\<lambda>Range. fst Range \<le> Address \<and> Address < snd Range) (ExecutableRanges M)"

text \<open>
  Modelled from the spec: \<open>isInstructionAligned\<close> is declared in \<open>jumptargetmanager.h\<close>,
  which is not among the sources. The spec asks that the address satisfy the instruction
  alignment rule of the source architecture.
\<close>

definition isInstructionAligned :: "JumpTargetManager \<Rightarrow> u64 \<Rightarrow> bool" where
  "isInstructionAligned M Address = alignmentRule (SourceArchitecture M) Address"

subsection \<open>\<open>unvisit\<close>\<close>

text \<open>
  The test \<open>unvisit\<close> applies to a successor before it pushes it: the successor is in
  \<open>Visited\<close>, it is not empty, and its first instruction is not a call to \<open>newpc\<close>. The code
  asks \<open>getCalledFunction()\<close> for its name without a null check.
\<close>

definition unvisit_test :: "Function \<Rightarrow> BasicBlock fset \<Rightarrow> BasicBlock \<Rightarrow> fault + bool" where
  "unvisit_test F V Successor =
     (if Successor |\<in>| V \<and> InstList F Successor \<noteq> [] then
        (case InstrAt F (hd (InstList F Successor)) of
           CallInst None args \<Rightarrow> Inl UndefinedBehaviour
         | CallInst (Some callee) args \<Rightarrow> Inr (callee \<noteq> ''newpc'')
         | _ \<Rightarrow> Inr True)
      else Inr False)"

text \<open>The inner loop over the successors of \<open>Current\<close>: the successors pushed, in order.\<close>

fun unvisit_successors :: "Function \<Rightarrow> BasicBlock fset \<Rightarrow> BasicBlock list \<Rightarrow> fault + BasicBlock list" where
  "unvisit_successors F V [] = Inr []"
| "unvisit_successors F V (Successor # rest) =
     (case unvisit_test F V Successor of
        Inl f \<Rightarrow> Inl f
      | Inr push \<Rightarrow>
          (case unvisit_successors F V rest of
             Inl f \<Rightarrow> Inl f
           | Inr pushed \<Rightarrow> Inr (if push then Successor # pushed else pushed)))"

text \<open>
  The outer loop. \<open>WorkList\<close> is a \<open>std::vector\<close> used as a stack: the head of the list is
  its back. A block can be on the stack more than once, so the loop is shown to end with
  the multiset of the ranks of the stack entries, where the rank of an entry is twice the
  size of \<open>Visited\<close>, plus one when the entry is no longer in \<open>Visited\<close>.
\<close>

definition unvisit_rank :: "BasicBlock fset \<Rightarrow> BasicBlock \<Rightarrow> nat" where
  "unvisit_rank V BB = 2 * fcard V + (if BB |\<in>| V then 0 else 1)"

function unvisit_loop :: "Function \<Rightarrow> BasicBlock list \<Rightarrow> BasicBlock fset \<Rightarrow> fault + BasicBlock fset" where
  "unvisit_loop F [] V = Inr V"
| "unvisit_loop F (Current # WorkList) V =
     (let V' = V |-| {|Current|} in
      case unvisit_successors F V' (successors F Current) of
        Inl f \<Rightarrow> Inl f
      | Inr pushed \<Rightarrow> unvisit_loop F (rev pushed @ WorkList) V')"
  by pat_completeness auto
termination
proof (relation "inv_image (mult {(a, b). a < b})
                  (\<lambda>(F, WorkList, V). mset (map (unvisit_rank V) WorkList))")
  show "wf (inv_image (mult {(a :: nat, b). a < b})
             (\<lambda>(F, WorkList, V). mset (map (unvisit_rank V) WorkList)))"
    by (intro wf_inv_image wf_mult) (rule wf_less)
next
  fix F :: Function and Current WorkList V V' pushed
  assume V': "V' = V |-| {|Current|}"
    and pushed: "unvisit_successors F V' (successors F Current) = Inr pushed"
  have "set ps \<subseteq> fset V'" if "unvisit_successors F V' ss = Inr ps" for ss ps
    using that
    by (induction ss arbitrary: ps) (auto simp: unvisit_test_def split: sum.splits if_splits)
  then have sub: "set pushed \<subseteq> fset V'"
    using pushed by blast
  show "((F, rev pushed @ WorkList, V'), (F, Current # WorkList, V))
          \<in> inv_image (mult {(a, b). a < b})
               (\<lambda>(F, WorkList, V). mset (map (unvisit_rank V) WorkList))"
  proof (cases "Current |\<in>| V")
    case True
    then have card: "Suc (fcard V') = fcard V"
      using V' fcard_Suc_fminus1 [of Current V] by simp
    have "\<forall>k \<in># mset (map (unvisit_rank V') (rev pushed @ WorkList)).
            \<exists>j \<in># mset (map (unvisit_rank V) (Current # WorkList)). (k, j) \<in> {(a, b). a < b}"
    proof
      fix k assume "k \<in># mset (map (unvisit_rank V') (rev pushed @ WorkList))"
      then have "k \<le> 2 * fcard V' + 1"
        by (auto simp: unvisit_rank_def)
      then have "k < unvisit_rank V Current"
        using True card by (simp add: unvisit_rank_def)
      then show "\<exists>j \<in># mset (map (unvisit_rank V) (Current # WorkList)). (k, j) \<in> {(a, b). a < b}"
        by auto
    qed
    then have "({#} + mset (map (unvisit_rank V') (rev pushed @ WorkList)),
                {#} + mset (map (unvisit_rank V) (Current # WorkList))) \<in> mult {(a, b). a < b}"
      by (intro one_step_implies_mult) simp_all
    then show ?thesis by simp
  next
    case False
    then have same: "V' = V"
      using V' by auto
    have "\<forall>k \<in># mset (map (unvisit_rank V) pushed).
            \<exists>j \<in># {#unvisit_rank V Current#}. (k, j) \<in> {(a, b). a < b}"
      using sub False same by (auto simp: unvisit_rank_def)
    then have "(mset (map (unvisit_rank V) WorkList) + mset (map (unvisit_rank V) pushed),
                mset (map (unvisit_rank V) WorkList) + {#unvisit_rank V Current#})
                 \<in> mult {(a, b). a < b}"
      by (intro one_step_implies_mult) simp_all
    then show ?thesis
      using same by (simp add: add.commute)
  qed
qed

text \<open>\<open>JumpTargetManager::unvisit\<close>: nothing happens unless the block is in \<open>Visited\<close>.\<close>

definition unvisit :: "JumpTargetManager \<Rightarrow> BasicBlock \<Rightarrow> fault + JumpTargetManager" where
  "unvisit M BB =
     (if BB |\<in>| Visited M then
        (case unvisit_loop (TheFunction M) [BB] (Visited M) of
           Inl f \<Rightarrow> Inl f
         | Inr V \<Rightarrow> Inr (M\<lparr>Visited := V\<rparr>))
      else Inr M)"

subsection \<open>\<open>getBlockAt\<close>\<close>

text \<open>The name of a placeholder block: \<open>std::hex\<close> prints lowercase digits, no padding.\<close>

definition hex_digit :: "nat \<Rightarrow> char" where
  "hex_digit d = ''0123456789abcdef'' ! d"

fun hex :: "nat \<Rightarrow> string" where
  "hex n = (if n < 16 then [hex_digit n] else hex (n div 16) @ [hex_digit (n mod 16)])"

declare hex.simps [simp del]

text \<open>
  Case 2 of \<open>getBlockAt\<close>: the address has an instruction but no block. The containing block
  is reused when the instruction is its first one, and split at the instruction otherwise;
  \<open>unvisit\<close> runs on the result. An instruction that is in no block has a null parent,
  which the code dereferences.
\<close>

definition getBlockAt_promote :: "JumpTargetManager \<Rightarrow> Instruction \<Rightarrow> fault + BasicBlock \<times> JumpTargetManager" where
  "getBlockAt_promote M I =
     (case getParent (TheFunction M) I of
        None \<Rightarrow> Inl UndefinedBehaviour
      | Some ContainingBlock \<Rightarrow>
          (case (if I = hd (InstList (TheFunction M) ContainingBlock)
                 then Inr (ContainingBlock, TheFunction M)
                 else splitBasicBlock (TheFunction M) ContainingBlock I) of
             Inl f \<Rightarrow> Inl f
           | Inr (NewBlock, F) \<Rightarrow>
               (case unvisit (M\<lparr>TheFunction := F\<rparr>) NewBlock of
                  Inl f \<Rightarrow> Inl f
                | Inr M' \<Rightarrow> Inr (NewBlock, M'))))"

text \<open>
  Case 3 of \<open>getBlockAt\<close>: the address has never been met. A new empty block named after the
  address is created and pushed on \<open>Unexplored\<close>.
\<close>

definition getBlockAt_create :: "JumpTargetManager \<Rightarrow> u64 \<Rightarrow> BasicBlock \<times> JumpTargetManager" where
  "getBlockAt_create M PC =
     (let (NewBlock, F) = Create (TheFunction M) (''bb.0x'' @ hex (unat PC))
      in (NewBlock, M\<lparr>TheFunction := F, Unexplored := Unexplored M @ [(PC, NewBlock)]\<rparr>))"

text \<open>
  \<open>JumpTargetManager::getBlockAt\<close>. The result is the block returned (\<open>None\<close> for \<open>nullptr\<close>)
  and the manager after the call. The literal of the new case is
  \<open>ConstantInt::get(SwitchType, PC)\<close>, where \<open>SwitchType\<close> is the integer type the program
  counter register points to: \<open>PC\<close> cut to the width of that type when the type is
  narrower than 64 bits, and \<open>PC\<close> itself otherwise. The register is taken to point to an
  integer, as the \<open>cast\<close> asserts.
\<close>

definition getBlockAt :: "JumpTargetManager \<Rightarrow> u64 \<Rightarrow> bool \<Rightarrow> fault + BasicBlock option \<times> JumpTargetManager" where
  "getBlockAt M0 PC Reliable =
     (if \<not> isExecutableAddress M0 PC \<or> \<not> isInstructionAligned M0 PC then Inr (None, M0)
      else
        let M = (if Reliable then M0\<lparr>ReliablePCs := finsert PC (ReliablePCs M0)\<rparr> else M0) in
        case JumpTargets M PC of
          Some Target \<Rightarrow>
            (case unvisit M Target of
               Inl f \<Rightarrow> Inl f
             | Inr M' \<Rightarrow> Inr (Some Target, M'))
        | None \<Rightarrow>
            (case (case OriginalInstructionAddresses M PC of
                     Some I \<Rightarrow> getBlockAt_promote M I
                   | None \<Rightarrow> Inr (getBlockAt_create M PC)) of
               Inl f \<Rightarrow> Inl f
             | Inr (NewBlock, M') \<Rightarrow>
                 (case addCase (TheFunction M') (DispatcherSwitch M')
                         (take_bit (ElementBits (PCReg M')) PC) NewBlock of
                    Inl f \<Rightarrow> Inl f
                  | Inr F \<Rightarrow>
                      Inr (Some NewBlock,
                           M'\<lparr>TheFunction := F,
                              JumpTargets := (JumpTargets M')(PC \<mapsto> NewBlock)\<rparr>))))"

text \<open>A sequence of \<open>getBlockAt\<close> calls, each on the manager the previous one left.\<close>

fun getBlockAt_sequence :: "JumpTargetManager \<Rightarrow> (u64 \<times> bool) list \<Rightarrow> fault + JumpTargetManager" where
  "getBlockAt_sequence M [] = Inr M"
| "getBlockAt_sequence M (request # requests) =
     (case getBlockAt M (fst request) (snd request) of
        Inl f \<Rightarrow> Inl f
      | Inr (Block, M') \<Rightarrow> getBlockAt_sequence M' requests)"

subsection \<open>Construction and registration\<close>

text \<open>
  \<open>createDispatcher\<close>: the entry block loads the program counter and switches on it, the
  default block calls \<open>unknownPC\<close> and is unreachable after that. The result is the
  dispatcher block, the handle of its switch, and the function.
\<close>

definition createDispatcher :: "Function \<Rightarrow> BasicBlock \<times> Instruction \<times> Function" where
  "createDispatcher F0 =
     (let (Entry, F1) = Create F0 ''dispatcher.entry'';
          (Default, F2) = Create F1 ''dispatcher.default'';
          (UnknownPC, F3) = appendInst F2 Default (CallInst (Some ''unknownPC'') []);
          (Unreach, F4) = appendInst F3 Default UnreachableInst;
          (SwitchOn, F5) = appendInst F4 Entry OtherInst;
          (Switch, F6) = appendInst F5 Entry (SwitchInst Default [])
      in (Entry, Switch, F6))"

text \<open>
  The constructor: the maps, the worklist and the sets start empty, the dispatcher is
  created, and \<open>ExecutableRanges\<close> lists the range of every executable segment.
\<close>

definition JumpTargetManager_new :: "Function \<Rightarrow> GlobalVariable \<Rightarrow> Architecture \<Rightarrow> SegmentInfo list \<Rightarrow> bool \<Rightarrow> JumpTargetManager" where
  "JumpTargetManager_new F0 PCReg0 Arch Segs OSRA =
     (let (Entry, Switch, F) = createDispatcher F0
      in \<lparr>TheFunction = F,
          OriginalInstructionAddresses = Map.empty,
          JumpTargets = Map.empty,
          Unexplored = [],
          Visited = {||},
          ReliablePCs = {||},
          PCReg = PCReg0,
          Dispatcher = Entry,
          DispatcherSwitch = Switch,
          ExecutableRanges =
            map (\<lambda>Segment. (StartVirtualAddress Segment, EndVirtualAddress Segment))
              (filter IsExecutable Segs),
          Segments = Segs,
          SourceArchitecture = Arch,
          EnableOSRA = OSRA\<rparr>)"

text \<open>\<open>registerInstruction\<close>: an address is never saved twice.\<close>

definition registerInstruction :: "JumpTargetManager \<Rightarrow> u64 \<Rightarrow> Instruction \<Rightarrow> fault + JumpTargetManager" where
  "registerInstruction M PC I =
     (if OriginalInstructionAddresses M PC \<noteq> None then Inl AssertionFailure
      else Inr (M\<lparr>OriginalInstructionAddresses := (OriginalInstructionAddresses M)(PC \<mapsto> I)\<rparr>))"

text \<open>
  \<open>registerBlock\<close>. After \<open>It = JumpTargets.find(PC)\<close> the assertion accepts \<open>It == end()\<close>, and
  the test that follows reads \<open>It->second\<close> in every case. With the address absent that is a
  read through the end iterator. With the address present the assertion has made sure
  that \<open>It->second\<close> is \<open>Block\<close>, and nothing is stored.
\<close>

definition registerBlock :: "JumpTargetManager \<Rightarrow> u64 \<Rightarrow> BasicBlock \<Rightarrow> fault + JumpTargetManager" where
  "registerBlock M PC Block =
     (case JumpTargets M PC of
        None \<Rightarrow> Inl UndefinedBehaviour
      | Some Present \<Rightarrow>
          (if Present \<noteq> Block then Inl AssertionFailure
           else if Present \<noteq> Block then Inr (M\<lparr>JumpTargets := (JumpTargets M)(PC \<mapsto> Block)\<rparr>)
           else Inr M))"

section \<open>Harvesting code pointers from global data\<close>

text \<open>
  \<open>findCodePointers<value_type, endian>(Start, End)\<close>. The last argument holds the bytes
  from \<open>Start\<close> to \<open>End\<close>, and \<open>width\<close> is \<open>sizeof(value_type)\<close>. The loop goes on while
  \<open>Start < End - sizeof(value_type)\<close>, that is while more than \<open>width\<close> bytes are left;
  each round reads one word at \<open>Start\<close>, passes it to \<open>getBlockAt\<close> with the reliability flag
  off, and moves \<open>Start\<close> one byte on.
\<close>

fun findCodePointers :: "nat \<Rightarrow> bool \<Rightarrow> JumpTargetManager \<Rightarrow> u8 list \<Rightarrow> fault + JumpTargetManager" where
  "findCodePointers width little M [] = Inr M"
| "findCodePointers width little M (b # bytes) =
     (if width < length (b # bytes) then
        (case getBlockAt M (endian_read little (take width (b # bytes))) False of
           Inl f \<Rightarrow> Inl f
         | Inr (Block, M') \<Rightarrow> findCodePointers width little M' bytes)
      else Inr M)"

text \<open>
  \<open>harvestGlobalData\<close>: every segment is scanned with the pointer size and the byte order of
  the source architecture; a pointer size other than 64 or 32 scans nothing.
\<close>

fun harvestGlobalData_segments :: "JumpTargetManager \<Rightarrow> SegmentInfo list \<Rightarrow> fault + JumpTargetManager" where
  "harvestGlobalData_segments M [] = Inr M"
| "harvestGlobalData_segments M (Segment # rest) =
     (case (if pointerSize (SourceArchitecture M) = 64
            then findCodePointers 8 (isLittleEndian (SourceArchitecture M)) M (RawData Segment)
            else if pointerSize (SourceArchitecture M) = 32
            then findCodePointers 4 (isLittleEndian (SourceArchitecture M)) M (RawData Segment)
            else Inr M) of
        Inl f \<Rightarrow> Inl f
      | Inr M' \<Rightarrow> harvestGlobalData_segments M' rest)"

definition harvestGlobalData :: "JumpTargetManager \<Rightarrow> fault + JumpTargetManager" where
  "harvestGlobalData M = harvestGlobalData_segments M (Segments M)"

section \<open>Sum jumps and direct branches\<close>

text \<open>\<open>isa<Constant>\<close> on a value.\<close>

fun isConstant :: "Value \<Rightarrow> bool" where
  "isConstant (ConstantInt bits v) = True"
| "isConstant OtherConstant = True"
| "isConstant V = False"

text \<open>
  The loop of \<open>isSumJump\<close> on its work list, a \<open>std::queue\<close>: the head of the list is the
  front of the queue. Constants and loads are passed over; \<open>add\<close> and \<open>or\<close> answer yes;
  \<open>shl\<close>, \<open>lshr\<close>, \<open>ashr\<close> and \<open>and\<close> enqueue their operands that are not constants; any
  other binary operator and any other value answer no; an empty queue answers no.
\<close>

function isSumJump_loop :: "Value list \<Rightarrow> bool" where
  "isSumJump_loop [] = False"
| "isSumJump_loop (ConstantInt bits v # WorkList) = isSumJump_loop WorkList"
| "isSumJump_loop (OtherConstant # WorkList) = isSumJump_loop WorkList"
| "isSumJump_loop (LoadInst Pointer # WorkList) = isSumJump_loop WorkList"
| "isSumJump_loop (BinaryOperator Opcode Op0 Op1 # WorkList) =
     (if Opcode = Add \<or> Opcode = Or then True
      else if Opcode = Shl \<or> Opcode = LShr \<or> Opcode = AShr \<or> Opcode = And
      then isSumJump_loop (WorkList @ filter (\<lambda>Operand. \<not> isConstant Operand) [Op0, Op1])
      else False)"
| "isSumJump_loop (OtherValue # WorkList) = False"
  by pat_completeness auto
termination
  by (relation "measure (\<lambda>WorkList. \<Sum>V \<leftarrow> WorkList. 2 * size V + 1)") auto

text \<open>\<open>isSumJump(PCWrite)\<close>, given the value operand of the store.\<close>

definition isSumJump :: "Value \<Rightarrow> bool" where
  "isSumJump V = isSumJump_loop [V]"

text \<open>
  The values the loop of \<open>isSumJump\<close> takes from its queue, in order: the walk. It ends with
  the value that decides the answer, or when the queue is empty.
\<close>

function isSumJump_walk :: "Value list \<Rightarrow> Value list" where
  "isSumJump_walk [] = []"
| "isSumJump_walk (ConstantInt bits v # WorkList) = ConstantInt bits v # isSumJump_walk WorkList"
| "isSumJump_walk (OtherConstant # WorkList) = OtherConstant # isSumJump_walk WorkList"
| "isSumJump_walk (LoadInst Pointer # WorkList) = LoadInst Pointer # isSumJump_walk WorkList"
| "isSumJump_walk (BinaryOperator Opcode Op0 Op1 # WorkList) =
     BinaryOperator Opcode Op0 Op1 #
     (if Opcode = Add \<or> Opcode = Or then []
      else if Opcode = Shl \<or> Opcode = LShr \<or> Opcode = AShr \<or> Opcode = And
      then isSumJump_walk (WorkList @ filter (\<lambda>Operand. \<not> isConstant Operand) [Op0, Op1])
      else [])"
| "isSumJump_walk (OtherValue # WorkList) = [OtherValue]"
  by pat_completeness auto
termination
  by (relation "measure (\<lambda>WorkList. \<Sum>V \<leftarrow> WorkList. 2 * size V + 1)") auto

fun isAddOrOr :: "Value \<Rightarrow> bool" where
  "isAddOrOr (BinaryOperator Opcode Op0 Op1) = (Opcode = Add \<or> Opcode = Or)"
| "isAddOrOr V = False"

text \<open>
  \<open>getPrevPCWrite\<close>: the instructions before \<open>TheInstruction\<close> in its block, nearest first. A
  store to \<open>PCReg\<close> is the answer; a call ends the search with no answer.
\<close>

fun getPrevPCWrite_scan :: "Function \<Rightarrow> nat \<Rightarrow> Instruction list \<Rightarrow> Instruction option" where
  "getPrevPCWrite_scan F PCReg0 [] = None"
| "getPrevPCWrite_scan F PCReg0 (Current # before) =
     (case InstrAt F Current of
        StoreInst V Pointer \<Rightarrow>
          (if Pointer = PCReg0 then Some Current else getPrevPCWrite_scan F PCReg0 before)
      | CallInst callee args \<Rightarrow> None
      | _ \<Rightarrow> getPrevPCWrite_scan F PCReg0 before)"

definition getPrevPCWrite :: "JumpTargetManager \<Rightarrow> Instruction \<Rightarrow> fault + Instruction option" where
  "getPrevPCWrite M TheInstruction =
     (case getParent (TheFunction M) TheInstruction of
        None \<Rightarrow> Inl UndefinedBehaviour
      | Some BB \<Rightarrow>
          Inr (getPrevPCWrite_scan (TheFunction M) (VariableHandle (PCReg M))
                 (rev (takeWhile (\<lambda>I. I \<noteq> TheInstruction) (InstList (TheFunction M) BB)))))"

text \<open>\<open>ConstantInt::getSExtValue\<close>, as the \<open>uint64_t\<close> it is assigned to.\<close>

definition getSExtValue :: "nat \<Rightarrow> u64 \<Rightarrow> u64" where
  "getSExtValue bits v = signed_take_bit (bits - 1) v"

text \<open>
  The calls of \<open>getBlockAt\<close> that \<open>TranslateDirectBranchesPass::runOnFunction\<close> makes for one
  call of \<open>exitTB\<close> whose program counter write stores \<open>V\<close>, as pairs of the address and the
  reliability flag. \<open>NextPC\<close> is the fall-through address \<open>JTM->getNextPC(PCWrite)\<close>, and
  \<open>OSRA\<close> is \<open>JTM->isOSRAEnabled()\<close>.
\<close>

definition directBranchRequests :: "bool \<Rightarrow> u64 \<Rightarrow> Value \<Rightarrow> (u64 \<times> bool) list" where
  "directBranchRequests OSRA NextPC V =
     (if NextPC \<noteq> 0 \<and> OSRA \<and> isSumJump V then [(NextPC, False)] else [])
     @ (case V of
          ConstantInt bits v \<Rightarrow>
            (let TargetPC = getSExtValue bits v;
                 IsReliable = (NextPC \<noteq> 0 \<and> TargetPC \<noteq> NextPC)
             in [(TargetPC, IsReliable)])
        | _ \<Rightarrow> [])"

text \<open>
  The body of the loop of \<open>runOnFunction\<close> for one call of \<open>exitTB\<close>, up to the point where
  the target block is known: the program counter write is looked up, and the requests are
  passed to \<open>getBlockAt\<close> in order. The result is the requests made and the manager after
  them. \<open>JumpTargetManager::getNextPC\<close> is not among the sources and is a parameter, and
  \<open>isOSRAEnabled()\<close>, declared in the header, is taken to return \<open>EnableOSRA\<close>. The
  rewriting of the block that follows in the source does not touch the manager.
\<close>

definition runOnFunction_resolve :: "JumpTargetManager \<Rightarrow> (Instruction \<Rightarrow> u64) \<Rightarrow> Instruction \<Rightarrow> fault + (u64 \<times> bool) list \<times> JumpTargetManager" where
  "runOnFunction_resolve M getNextPC Call =
     (case getPrevPCWrite M Call of
        Inl f \<Rightarrow> Inl f
      | Inr None \<Rightarrow> Inr ([], M)
      | Inr (Some PCWrite) \<Rightarrow>
          (case InstrAt (TheFunction M) PCWrite of
             StoreInst V Pointer \<Rightarrow>
               (let requests = directBranchRequests (EnableOSRA M) (getNextPC PCWrite) V
                in case getBlockAt_sequence M requests of
                     Inl f \<Rightarrow> Inl f
                   | Inr M' \<Rightarrow> Inr (requests, M'))
           | _ \<Rightarrow> Inl UndefinedBehaviour))"

section \<open>Finding the program counter of an instruction\<close>

text \<open>
  The inner loop of \<open>getPC\<close>: the instructions from the iterator back to the start of the
  block, looking for a call to \<open>newpc\<close>. The name of the callee is read without a null check.
\<close>

fun getPC_scan :: "Function \<Rightarrow> Instruction list \<Rightarrow> fault + Instruction option" where
  "getPC_scan F [] = Inr None"
| "getPC_scan F (I # before) =
     (case InstrAt F I of
        CallInst None args \<Rightarrow> Inl UndefinedBehaviour
      | CallInst (Some callee) args \<Rightarrow>
          (if callee = ''newpc'' then Inr (Some I) else getPC_scan F before)
      | _ \<Rightarrow> getPC_scan F before)"

text \<open>
  What \<open>getPC\<close> returns once the work list is empty: the sentinel when no marker was found,
  the two constant arguments of the marker otherwise (\<open>getConst\<close> casts to \<open>ConstantInt\<close>,
  and the size is asserted not to be zero).
\<close>

definition getPC_result :: "Function \<Rightarrow> Instruction option \<Rightarrow> fault + u64 \<times> u64" where
  "getPC_result F NewPCCall =
     (case NewPCCall of
        None \<Rightarrow> Inr (0, 0)
      | Some Marker \<Rightarrow>
          (case InstrAt F Marker of
             CallInst callee (ConstantInt bits0 PC # ConstantInt bits1 Size # others) \<Rightarrow>
               (if Size = 0 then Inl AssertionFailure else Inr (PC, Size))
           | _ \<Rightarrow> Inl AssertionFailure))"

text \<open>
  The outer loop of \<open>getPC\<close>. An entry of the work list is a reverse iterator: its block and
  the instructions it still has to pass. A block joins \<open>Visited\<close> when it is taken from the
  queue. A second marker returns the sentinel at once. While no marker has been found the
  predecessors are asserted not to be the dispatcher, and those that are not empty and not
  in \<open>Visited\<close> are enqueued. The loop may not end on every input, so that not returning
  is the value \<open>None\<close>.
\<close>

partial_function (option) getPC_loop :: "Function \<Rightarrow> BasicBlock \<Rightarrow> (BasicBlock \<times> Instruction list) list \<Rightarrow> BasicBlock fset \<Rightarrow> Instruction option \<Rightarrow> (fault + u64 \<times> u64) option" where
  "getPC_loop F TheDispatcher WorkList Seen NewPCCall =
     (case WorkList of
        [] \<Rightarrow> Some (getPC_result F NewPCCall)
      | Entry # rest \<Rightarrow>
          (case getPC_scan F (snd Entry) of
             Inl f \<Rightarrow> Some (Inl f)
           | Inr (Some Marker) \<Rightarrow>
               (if NewPCCall \<noteq> None then Some (Inr (0, 0))
                else getPC_loop F TheDispatcher rest (finsert (fst Entry) Seen) (Some Marker))
           | Inr None \<Rightarrow>
               (if NewPCCall = None then
                  (if TheDispatcher \<in> set (predecessors F (fst Entry))
                   then Some (Inl AssertionFailure)
                   else getPC_loop F TheDispatcher
                          (rest @ map (\<lambda>Predecessor. (Predecessor, rev (InstList F Predecessor)))
                                    (filter (\<lambda>Predecessor. InstList F Predecessor \<noteq> []
                                                \<and> Predecessor |\<notin>| finsert (fst Entry) Seen)
                                       (predecessors F (fst Entry))))
                          (finsert (fst Entry) Seen) NewPCCall)
                else getPC_loop F TheDispatcher rest (finsert (fst Entry) Seen) NewPCCall)))"

text \<open>
  \<open>JumpTargetManager::getPC\<close>. When \<open>TheInstruction\<close> is the first of its block the search
  starts at \<open>--rend()\<close>, which is \<open>TheInstruction\<close> itself. Otherwise it starts at
  \<open>make_reverse_iterator(TheInstruction)\<close>. Modelled from the spec: that helper is declared
  in \<open>ir-helpers.h\<close>, which is not among the sources; the spec has the search look for the
  nearest preceding marker, so the iterator stands at the instruction before
  \<open>TheInstruction\<close>, as a \<open>std::reverse_iterator\<close> built from an iterator does.
\<close>

definition getPC :: "JumpTargetManager \<Rightarrow> Instruction \<Rightarrow> (fault + u64 \<times> u64) option" where
  "getPC M TheInstruction =
     (case getParent (TheFunction M) TheInstruction of
        None \<Rightarrow> Some (Inl UndefinedBehaviour)
      | Some BB \<Rightarrow>
          getPC_loop (TheFunction M) (Dispatcher M)
            [(BB, if TheInstruction = hd (InstList (TheFunction M) BB) then [TheInstruction]
                  else rev (takeWhile (\<lambda>I. I \<noteq> TheInstruction) (InstList (TheFunction M) BB)))]
            {||} None)"

section \<open>Auxiliary notions for the statements\<close>

text \<open>
  The two notions the boundary behaviour of \<open>readConstantInt\<close> is stated with: a segment
  holds an address when the address is in its half-open range, and the data model asks
  that the byte buffer of a segment be as long as its range.
\<close>

definition holds_address :: "SegmentInfo \<Rightarrow> u64 \<Rightarrow> bool" where
  "holds_address Segment Address \<longleftrightarrow>
     StartVirtualAddress Segment \<le> Address \<and> Address < EndVirtualAddress Segment"

definition buffer_matches_range :: "SegmentInfo \<Rightarrow> bool" where
  "buffer_matches_range Segment \<longleftrightarrow>
     length (RawData Segment)
       = unat (EndVirtualAddress Segment) - unat (StartVirtualAddress Segment)"

text \<open>The members no call of \<open>getBlockAt\<close> or \<open>unvisit\<close> writes.\<close>

definition same_config :: "JumpTargetManager \<Rightarrow> JumpTargetManager \<Rightarrow> bool" where
  "same_config M M' \<longleftrightarrow>
     ExecutableRanges M' = ExecutableRanges M \<and> SourceArchitecture M' = SourceArchitecture M
     \<and> DispatcherSwitch M' = DispatcherSwitch M \<and> Dispatcher M' = Dispatcher M
     \<and> OriginalInstructionAddresses M' = OriginalInstructionAddresses M
     \<and> PCReg M' = PCReg M \<and> Segments M' = Segments M \<and> EnableOSRA M' = EnableOSRA M"

text \<open>The two checks \<open>getBlockAt\<close> starts with.\<close>

definition valid_address :: "JumpTargetManager \<Rightarrow> u64 \<Rightarrow> bool" where
  "valid_address M PC \<longleftrightarrow> isExecutableAddress M PC \<and> isInstructionAligned M PC"

text \<open>
  The invariant of the dispatcher: the literals of the case table are distinct, and
  \<open>JumpTargets\<close> is the map the table describes.
\<close>

definition dispatcher_invariant :: "JumpTargetManager \<Rightarrow> bool" where
  "dispatcher_invariant M \<longleftrightarrow>
     distinct (map fst (dispatcherCases M)) \<and> JumpTargets M = map_of (dispatcherCases M)"

text \<open>
  The count of the dispatcher: the case table has one case for each address in
  \<open>JumpTargets\<close>.
\<close>

definition dispatcher_count :: "JumpTargetManager \<Rightarrow> bool" where
  "dispatcher_count M \<longleftrightarrow>
     finite (dom (JumpTargets M)) \<and> length (dispatcherCases M) = card (dom (JumpTargets M))"

text \<open>An address fits the program counter register when cutting it to the width changes nothing.\<close>

definition fits_register :: "JumpTargetManager \<Rightarrow> u64 \<Rightarrow> bool" where
  "fits_register M PC \<longleftrightarrow> take_bit (ElementBits (PCReg M)) PC = PC"

text \<open>
  A manager on which no instruction has been registered and no block visited, as the
  constructor leaves it; on such a manager \<open>getBlockAt\<close> never stops with a fault.
\<close>

definition pristine :: "JumpTargetManager \<Rightarrow> bool" where
  "pristine M \<longleftrightarrow>
     OriginalInstructionAddresses M = Map.empty \<and> Visited M = {||}
     \<and> (\<exists>Default Cases. InstrAt (TheFunction M) (DispatcherSwitch M) = SwitchInst Default Cases)"

section \<open>Example inputs\<close>

text \<open>The segment used in the examples: five readable bytes at 0x1000.\<close>

definition example_segment :: SegmentInfo where
  "example_segment =
     \<lparr>StartVirtualAddress = 0x1000, EndVirtualAddress = 0x1005, IsReadable = True,
      IsWriteable = False, IsExecutable = False, RawData = [1, 0, 0, 0, 0]\<rparr>"

text \<open>
  A module with a little-endian data layout, a 64-bit program counter register, an empty
  function, a 64-bit little-endian architecture with four byte instructions, a
  code segment of sixteen bytes at 0x1000 and a data segment at 0x3000 whose eight bytes
  are the little-endian pointer 0x1000.
\<close>

definition example_module :: Module where
  "example_module = \<lparr>DataLayoutLittleEndian = True\<rparr>"

definition example_pcreg :: GlobalVariable where
  "example_pcreg = \<lparr>VariableHandle = 0, ElementBits = 64\<rparr>"

definition example_function :: Function where
  "example_function =
     \<lparr>Parent = example_module, BasicBlocks = [], InstList = (\<lambda>BB. []), InstrAt = (\<lambda>I. OtherInst), BlockName = (\<lambda>BB. [])\<rparr>"

definition example_architecture :: Architecture where
  "example_architecture =
     \<lparr>pointerSize = 64, isLittleEndian = True, alignmentRule = (\<lambda>Address. unat Address mod 4 = 0)\<rparr>"

definition example_code :: SegmentInfo where
  "example_code =
     \<lparr>StartVirtualAddress = 0x1000, EndVirtualAddress = 0x1010, IsReadable = True,
      IsWriteable = False, IsExecutable = True, RawData = [0, 0, 0, 0, 0, 0, 0, 0, 0, 0, 0, 0, 0, 0, 0, 0]\<rparr>"

definition example_data :: SegmentInfo where
  "example_data =
     \<lparr>StartVirtualAddress = 0x3000, EndVirtualAddress = 0x3008, IsReadable = True,
      IsWriteable = True, IsExecutable = False, RawData = [0, 0x10, 0, 0, 0, 0, 0, 0]\<rparr>"

definition example_manager :: JumpTargetManager where
  "example_manager =
     JumpTargetManager_new example_function example_pcreg example_architecture [example_code, example_data] False"

definition example_requests :: "(u64 \<times> bool) list" where
  "example_requests = [(0x1000, True), (0x1004, False), (0x1000, False), (0x3000, True)]"

text \<open>
  A translated block: the marker of the instruction at 0x1000, a write of the constant
  0x1008 to the program counter, the call of \<open>exitTB\<close> and the \<open>unreachable\<close> after it.
\<close>

definition example_translated :: Function where
  "example_translated =
     \<lparr>Parent = example_module,
      BasicBlocks = [1],
      InstList = (\<lambda>BB. [])(1 := [1, 2, 3, 4]),
      InstrAt = (\<lambda>I. OtherInst)
        (1 := CallInst (Some ''newpc'') [ConstantInt 64 0x1000, ConstantInt 64 4],
         2 := StoreInst (ConstantInt 64 0x1008) 0,
         3 := CallInst (Some ''exitTB'') [],
         4 := UnreachableInst),
      BlockName = (\<lambda>BB. [])\<rparr>"

definition example_translated_manager :: JumpTargetManager where
  "example_translated_manager =
     JumpTargetManager_new example_translated example_pcreg example_architecture [example_code] False"

text \<open>
  A diamond: block 1 starts with the only marker and branches to blocks 2 and 3, which both
  branch to block 4.
\<close>

definition example_diamond :: Function where
  "example_diamond =
     \<lparr>Parent = example_module,
      BasicBlocks = [1, 2, 3, 4],
      InstList = (\<lambda>BB. [])(1 := [10, 11], 2 := [20, 21], 3 := [30, 31], 4 := [40, 41, 42]),
      InstrAt = (\<lambda>I. OtherInst)
        (10 := CallInst (Some ''newpc'') [ConstantInt 64 0x1000, ConstantInt 64 4],
         11 := BranchInst [2, 3],
         21 := BranchInst [4],
         31 := BranchInst [4],
         42 := UnreachableInst),
      BlockName = (\<lambda>BB. [])\<rparr>"

definition example_diamond_manager :: JumpTargetManager where
  "example_diamond_manager =
     JumpTargetManager_new example_diamond example_pcreg example_architecture [example_code] False"

text \<open>
  Two markers on two paths: block 1 holds the marker of 0x2000 and branches to block 5,
  which branches to block 3; block 2 holds the marker of 0x1000; and blocks 2 and 3 both
  branch to block 4. The second definition is the same function with the blocks listed
  in the opposite order.
\<close>

definition example_two_markers :: Function where
  "example_two_markers =
     \<lparr>Parent = example_module,
      BasicBlocks = [1, 2, 3, 4, 5],
      InstList = (\<lambda>BB. [])
        (1 := [10, 11], 2 := [20, 21], 3 := [30, 31], 4 := [40, 41, 42], 5 := [50, 51]),
      InstrAt = (\<lambda>I. OtherInst)
        (10 := CallInst (Some ''newpc'') [ConstantInt 64 0x2000, ConstantInt 64 4],
         11 := BranchInst [5],
         20 := CallInst (Some ''newpc'') [ConstantInt 64 0x1000, ConstantInt 64 4],
         21 := BranchInst [4],
         31 := BranchInst [4],
         42 := UnreachableInst,
         51 := BranchInst [3]),
      BlockName = (\<lambda>BB. [])\<rparr>"

definition example_two_markers_reversed :: Function where
  "example_two_markers_reversed = example_two_markers\<lparr>BasicBlocks := [5, 4, 3, 2, 1]\<rparr>"

definition example_two_markers_manager :: JumpTargetManager where
  "example_two_markers_manager =
     JumpTargetManager_new example_two_markers example_pcreg example_architecture [example_code] False"

text \<open>A block of three instructions with no marker in it.\<close>

definition example_unmarked :: Function where
  "example_unmarked =
     \<lparr>Parent = example_module,
      BasicBlocks = [1],
      InstList = (\<lambda>BB. [])(1 := [1, 2, 3]),
      InstrAt = (\<lambda>I. OtherInst)(3 := UnreachableInst),
      BlockName = (\<lambda>BB. [])\<rparr>"

definition example_unmarked_manager :: JumpTargetManager where
  "example_unmarked_manager =
     JumpTargetManager_new example_unmarked example_pcreg example_architecture [example_code] False"

text \<open>
  A 32-bit program counter register, with executable bytes at 0x1000 and above the 32-bit
  range at 0x100001000.
\<close>

definition example_narrow_pcreg :: GlobalVariable where
  "example_narrow_pcreg = \<lparr>VariableHandle = 0, ElementBits = 32\<rparr>"

definition example_high_code :: SegmentInfo where
  "example_high_code =
     \<lparr>StartVirtualAddress = 0x100001000, EndVirtualAddress = 0x100001010, IsReadable = True,
      IsWriteable = False, IsExecutable = True, RawData = [0, 0, 0, 0, 0, 0, 0, 0, 0, 0, 0, 0, 0, 0, 0, 0]\<rparr>"

definition example_narrow_manager :: JumpTargetManager where
  "example_narrow_manager =
     JumpTargetManager_new example_function example_narrow_pcreg example_architecture
       [example_code, example_high_code] False"

definition example_narrow_requests :: "(u64 \<times> bool) list" where
  "example_narrow_requests = [(0x1000, False), (0x100001000, False)]"

text \<open>
  A module with a big-endian data layout and a big-endian architecture, and three managers
  on the segment of five bytes: one with the little-endian module, one with the big-endian
  module, and one whose source architecture is big-endian while the data layout of its
  module is little-endian.
\<close>

definition example_big_module :: Module where
  "example_big_module = \<lparr>DataLayoutLittleEndian = False\<rparr>"

definition example_big_function :: Function where
  "example_big_function = example_function\<lparr>Parent := example_big_module\<rparr>"

definition example_big_architecture :: Architecture where
  "example_big_architecture =
     \<lparr>pointerSize = 64, isLittleEndian = False, alignmentRule = (\<lambda>Address. unat Address mod 4 = 0)\<rparr>"

definition example_reading_manager :: JumpTargetManager where
  "example_reading_manager =
     JumpTargetManager_new example_function example_pcreg example_architecture
       [example_segment] False"

definition example_big_manager :: JumpTargetManager where
  "example_big_manager =
     JumpTargetManager_new example_big_function example_pcreg example_big_architecture
       [example_segment] False"

definition example_mixed_manager :: JumpTargetManager where
  "example_mixed_manager =
     JumpTargetManager_new example_function example_pcreg example_big_architecture
       [example_segment] False"

section \<open>Properties of reading constants\<close>

lemmas example_defs =
  example_manager_def example_function_def example_module_def example_pcreg_def example_architecture_def example_code_def
  example_data_def JumpTargetManager_new_def createDispatcher_def Create_def appendInst_def
  fresh_def allInstructions_def isExecutableAddress_def isInstructionAligned_def

lemma readConstantInt_size1:
  "readConstantInt True Segs Address 1 = readConstantInt False Segs Address 1"
  by (induction Segs) simp_all

lemma read_little_sum:
  "read_little bs = (\<Sum>i<length bs. ucast (bs ! i) * 256 ^ i)"
proof (induction bs)
  case Nil
  then show ?case by simp
next
  case (Cons b bs)
  have "(\<Sum>i<length (b # bs). ucast ((b # bs) ! i) * 256 ^ i)
      = (ucast b :: u64) + (\<Sum>i<length bs. ucast (bs ! i) * 256 ^ Suc i)"
    by (simp add: sum.lessThan_Suc_shift del: sum.lessThan_Suc)
  also have "(\<Sum>i<length bs. (ucast (bs ! i) :: u64) * 256 ^ Suc i)
      = 256 * (\<Sum>i<length bs. ucast (bs ! i) * 256 ^ i)"
    by (simp add: sum_distrib_left mult_ac)
  finally show ?case
    using Cons.IH by simp
qed

lemma read_big_sum:
  "read_big bs = (\<Sum>i<length bs. ucast (bs ! (length bs - 1 - i)) * 256 ^ i)"
proof -
  have "(\<Sum>i<length bs. (ucast (rev bs ! i) :: u64) * 256 ^ i)
      = (\<Sum>i<length bs. ucast (bs ! (length bs - 1 - i)) * 256 ^ i)"
    by (rule sum.cong) (simp_all add: rev_nth)
  then show ?thesis
    using read_little_sum [of "rev bs"] by (simp add: read_big_def)
qed

lemma readConstantInt_first_match:
  assumes "find (\<lambda>Segment. segment_matches Segment Address Size) Segs = Some Segment"
    and "Size = 1 \<or> Size = 2 \<or> Size = 4 \<or> Size = 8"
    and "take (unat Size) (drop (unat (Address - StartVirtualAddress Segment)) (RawData Segment))
           = bytes"
    and "length bytes = unat Size"
  shows "readConstantInt little Segs Address Size
           = Inr (Some (ConstantInt (unat (Size * 8)) (endian_read (little \<or> Size = 1) bytes)))"
  using assms(1)
proof (induction Segs)
  case Nil
  then show ?case by simp
next
  case (Cons S Segs)
  show ?case
  proof (cases "segment_matches S Address Size")
    case True
    then have S: "S = Segment"
      using Cons.prems by simp
    have bound: "unat (Address - StartVirtualAddress Segment) + unat Size \<le> length (RawData Segment)"
      using assms(2,3,4) by (auto simp: min_def split: if_splits)
    from assms(2) show ?thesis
    proof (elim disjE)
      assume "Size = 1"
      then show ?thesis
        using True S assms(3) bound by (simp add: read_at_def)
    next
      assume "Size = 2"
      then show ?thesis
        using True S assms(3) bound by (simp add: read_at_def)
    next
      assume "Size = 4"
      then show ?thesis
        using True S assms(3) bound by (simp add: read_at_def)
    next
      assume "Size = 8"
      then show ?thesis
        using True S assms(3) bound by (simp add: read_at_def)
    qed
  next
    case False
    then show ?thesis
      using Cons by simp
  qed
qed

text \<open>
  C8. As stated the claim fails on the code: the byte order \<open>readConstantInt\<close> honours is
  not the one of the source architecture but the one of the data layout of the module
  (\<open>DL.isLittleEndian()\<close>), and nothing in the code ties the two (see the counterexample
  below). What holds, for a read of 1, 2, 4 or 8 bytes whose first matching segment holds
  \<open>bytes\<close> at the address: the value returned has \<open>Size * 8\<close> bits and is the number whose
  base 256 digits are \<open>bytes\<close>, least significant first when the data layout of the module is
  little-endian and most significant first when it is big-endian. So the bytes 01 00 00 00
  read as 1 in little-endian order and as 16777216 in big-endian order. A read of one byte
  is the same on two managers with the same segments, whatever their data layouts.
\<close>

theorem readConstantInt_byte_order:
  assumes "find (\<lambda>Segment. segment_matches Segment Address Size) (Segments M) = Some Segment"
    and "Size = 1 \<or> Size = 2 \<or> Size = 4 \<or> Size = 8"
    and "take (unat Size) (drop (unat (Address - StartVirtualAddress Segment)) (RawData Segment))
           = bytes"
    and "length bytes = unat Size"
  shows "JumpTargetManager_readConstantInt M Address Size
           = Inr (Some (ConstantInt (unat (Size * 8))
               (if DataLayoutLittleEndian (TheModule M)
                then (\<Sum>i<length bytes. ucast (bytes ! i) * 256 ^ i)
                else (\<Sum>i<length bytes. ucast (bytes ! (length bytes - 1 - i)) * 256 ^ i))))
         \<and> (bytes = [1, 0, 0, 0] \<longrightarrow>
              JumpTargetManager_readConstantInt M Address Size
                = Inr (Some (ConstantInt 32
                    (if DataLayoutLittleEndian (TheModule M) then 1 else 16777216))))
         \<and> (Segments M' = Segments M \<longrightarrow>
              JumpTargetManager_readConstantInt M' Address' 1
                = JumpTargetManager_readConstantInt M Address' 1)"
proof (intro conjI impI)
  define little where "little = DataLayoutLittleEndian (TheModule M)"
  have read: "JumpTargetManager_readConstantInt M Address Size
      = Inr (Some (ConstantInt (unat (Size * 8)) (endian_read (little \<or> Size = 1) bytes)))"
    unfolding JumpTargetManager_readConstantInt_def little_def
    by (rule readConstantInt_first_match [OF assms])
  have one: "(\<Sum>i<length bytes. (ucast (bytes ! (length bytes - 1 - i)) :: u64) * 256 ^ i)
      = (\<Sum>i<length bytes. ucast (bytes ! i) * 256 ^ i)" if "Size = 1"
    using that assms(4) by simp
  have "endian_read (little \<or> Size = 1) bytes
      = (if little then (\<Sum>i<length bytes. ucast (bytes ! i) * 256 ^ i)
         else (\<Sum>i<length bytes. ucast (bytes ! (length bytes - 1 - i)) * 256 ^ i))"
    using one by (simp add: endian_read_def read_little_sum read_big_sum)
  then show "JumpTargetManager_readConstantInt M Address Size
      = Inr (Some (ConstantInt (unat (Size * 8))
          (if DataLayoutLittleEndian (TheModule M)
           then (\<Sum>i<length bytes. ucast (bytes ! i) * 256 ^ i)
           else (\<Sum>i<length bytes. ucast (bytes ! (length bytes - 1 - i)) * 256 ^ i))))"
    using read by (simp add: little_def)
  show "JumpTargetManager_readConstantInt M Address Size
      = Inr (Some (ConstantInt 32 (if DataLayoutLittleEndian (TheModule M) then 1 else 16777216)))"
    if bytes: "bytes = [1, 0, 0, 0]"
  proof -
    have "unat Size = 4"
      using assms(4) bytes by simp
    then have "Size = 4"
      using assms(2) by auto
    then show ?thesis
      using read bytes by (simp add: little_def endian_read_def read_big_def)
  qed
  show "JumpTargetManager_readConstantInt M' Address' 1
      = JumpTargetManager_readConstantInt M Address' 1"
    if "Segments M' = Segments M"
    using that readConstantInt_size1 [of "Segments M" Address']
    by (cases "DataLayoutLittleEndian (TheModule M')"; cases "DataLayoutLittleEndian (TheModule M)")
      (simp_all add: JumpTargetManager_readConstantInt_def)
qed

theorem readConstantInt_byte_order_witness:
  "JumpTargetManager_readConstantInt example_reading_manager 0x1000 4
     = Inr (Some (ConstantInt 32 1))
   \<and> JumpTargetManager_readConstantInt example_big_manager 0x1000 4
       = Inr (Some (ConstantInt 32 16777216))
   \<and> JumpTargetManager_readConstantInt example_big_manager 0x1003 1
       = JumpTargetManager_readConstantInt example_reading_manager 0x1003 1"
proof -
  have little: "Segments example_reading_manager = [example_segment]"
    "DataLayoutLittleEndian (TheModule example_reading_manager)"
    by (simp_all add: example_reading_manager_def TheModule_def example_defs)
  have big: "Segments example_big_manager = [example_segment]"
    "\<not> DataLayoutLittleEndian (TheModule example_big_manager)"
    by (simp_all add: example_big_manager_def example_big_function_def example_big_module_def
        TheModule_def example_defs)
  have match: "find (\<lambda>Segment. segment_matches Segment 0x1000 4) [example_segment]
      = Some example_segment"
    "take (unat (4 :: u32)) (drop (unat (0x1000 - StartVirtualAddress example_segment))
       (RawData example_segment)) = [1, 0, 0, 0]"
    by (simp_all add: example_segment_def segment_matches_def)
  show ?thesis
    using readConstantInt_byte_order [of "0x1000" 4 example_reading_manager example_segment
        "[1, 0, 0, 0]" example_big_manager "0x1003"]
      readConstantInt_byte_order [of "0x1000" 4 example_big_manager example_segment
        "[1, 0, 0, 0]" example_big_manager "0x1003"]
      little big match
    by simp
qed

text \<open>
  The counterexample: a manager whose source architecture is big-endian and whose module
  has a little-endian data layout reads the bytes 01 00 00 00 as 1, in little-endian
  order, and not as 16777216.
\<close>

theorem readConstantInt_byte_order_counterexample:
  "\<not> isLittleEndian (SourceArchitecture example_mixed_manager)
   \<and> take 4 (RawData example_segment) = [1, 0, 0, 0]
   \<and> JumpTargetManager_readConstantInt example_mixed_manager 0x1000 4
       = Inr (Some (ConstantInt 32 1))"
  by (simp add: example_mixed_manager_def example_big_architecture_def
      JumpTargetManager_readConstantInt_def TheModule_def example_segment_def
      segment_matches_def read_at_def endian_read_def example_defs)

text \<open>
  Reads of two and of eight bytes in the two orders: the bytes 01 00 read as 1 and as 256,
  and the bytes 01 02 03 04 05 06 07 08 as 0x0807060504030201 and as 0x0102030405060708.
\<close>

lemma readConstantInt_two_and_eight_bytes:
  "readConstantInt True [example_segment] 0x1000 2 = Inr (Some (ConstantInt 16 1))
   \<and> readConstantInt False [example_segment] 0x1000 2 = Inr (Some (ConstantInt 16 256))
   \<and> endian_read True [1, 2, 3, 4, 5, 6, 7, 8] = 0x0807060504030201
   \<and> endian_read False [1, 2, 3, 4, 5, 6, 7, 8] = 0x0102030405060708"
  by (simp add: example_segment_def segment_matches_def read_at_def endian_read_def read_big_def)

lemma readConstantInt_None_iff:
  "readConstantInt little Segs Address Size = Inr None
     \<longleftrightarrow> \<not> (\<exists>Segment \<in> set Segs. segment_matches Segment Address Size)"
  by (induction Segs) (auto simp: Let_def split: sum.splits)

lemma read_at_in_range:
  assumes "segment_matches Segment Address Size" and "buffer_matches_range Segment"
    and "unat Address + unat Size < 2 ^ 64"
  shows "unat (Address - StartVirtualAddress Segment) + unat Size \<le> length (RawData Segment)"
proof -
  have le: "StartVirtualAddress Segment \<le> Address"
    and lt: "Address + ucast Size < EndVirtualAddress Segment"
    using assms(1) by (simp_all add: segment_matches_def)
  have us: "unat (ucast Size :: u64) = unat Size"
  proof -
    have "unat Size < 2 ^ 32" using unsigned_less [of Size] by simp
    then have "unat Size < 2 ^ 64" by (rule less_trans) simp
    then show ?thesis by (simp add: unsigned_ucast_eq take_bit_nat_eq_self)
  qed
  have "unat (Address + ucast Size) = unat Address + unat Size"
    using assms(3) us unat_add_lem [of Address "ucast Size"] by simp
  then have "unat Address + unat Size < unat (EndVirtualAddress Segment)"
    using lt by (simp add: word_less_nat_alt)
  moreover have "unat (Address - StartVirtualAddress Segment)
      = unat Address - unat (StartVirtualAddress Segment)"
    using le by (simp add: unat_sub)
  moreover have "unat (StartVirtualAddress Segment) \<le> unat Address"
    using le by (simp add: word_le_nat_alt)
  ultimately show ?thesis
    using assms(2) by (simp add: buffer_matches_range_def)
qed


lemma readConstantInt_no_fault:
  assumes "Size = 1 \<or> Size = 2 \<or> Size = 4 \<or> Size = 8"
    and "list_all buffer_matches_range Segs"
    and "unat Address + unat Size < 2 ^ 64"
  shows "\<exists>r. readConstantInt little Segs Address Size = Inr r"
  using assms(2)
proof (induction Segs)
  case Nil
  show ?case by simp
next
  case (Cons Segment Segs)
  show ?case
  proof (cases "segment_matches Segment Address Size")
    case True
    have "unat (Address - StartVirtualAddress Segment) + unat Size \<le> length (RawData Segment)"
      using True Cons.prems assms(3) by (intro read_at_in_range) simp_all
    then show ?thesis
      using True assms(1) by (auto simp: read_at_def Let_def)
  next
    case False
    then show ?thesis using Cons by simp
  qed
qed

lemma segment_matches_holds:
  assumes "segment_matches Segment Address Size" and "unat Address + unat Size < 2 ^ 64"
  shows "holds_address Segment Address \<and> Address + ucast Size \<noteq> EndVirtualAddress Segment"
proof -
  have us: "unat (ucast Size :: u64) = unat Size"
  proof -
    have "unat Size < 2 ^ 32" using unsigned_less [of Size] by simp
    then have "unat Size < 2 ^ 64" by (rule less_trans) simp
    then show ?thesis by (simp add: unsigned_ucast_eq take_bit_nat_eq_self)
  qed
  have "unat (Address + ucast Size) = unat Address + unat Size"
    using assms(2) us unat_add_lem [of Address "ucast Size"] by simp
  then have "Address \<le> Address + ucast Size"
    by (simp add: word_le_nat_alt)
  then show ?thesis
    using assms(1) by (auto simp: segment_matches_def holds_address_def)
qed

text \<open>
  C3. For a read of 1, 2, 4 or 8 bytes, \<open>readConstantInt\<close> returns a value exactly when
  some segment has \<open>start \<le> address\<close>, \<open>address + size < end\<close> (strict) and is readable.
  In particular a read that ends exactly at the end of the segment that holds its address
  (\<open>address + size = end\<close>) returns absent. The segments are as the data model has them
  (the byte buffer of each is as long as its address range), and \<open>address + size\<close> is
  representable in 64 bits, so that the read stays inside the buffer.
\<close>

theorem readConstantInt_returns_iff:
  assumes "Size = 1 \<or> Size = 2 \<or> Size = 4 \<or> Size = 8"
    and "list_all buffer_matches_range Segs"
    and "unat Address + unat Size < 2 ^ 64"
  shows "((\<exists>v. readConstantInt little Segs Address Size = Inr (Some v))
           \<longleftrightarrow> (\<exists>Segment \<in> set Segs.
                  StartVirtualAddress Segment \<le> Address
                  \<and> Address + ucast Size < EndVirtualAddress Segment
                  \<and> IsReadable Segment))
         \<and> ((\<forall>Segment \<in> set Segs. holds_address Segment Address
                \<longrightarrow> Address + ucast Size = EndVirtualAddress Segment)
              \<longrightarrow> readConstantInt little Segs Address Size = Inr None)"
proof (intro conjI impI)
  obtain r where r: "readConstantInt little Segs Address Size = Inr r"
    using readConstantInt_no_fault [OF assms] by blast
  have "r = None \<longleftrightarrow> \<not> (\<exists>Segment \<in> set Segs. segment_matches Segment Address Size)"
    using readConstantInt_None_iff [of little Segs Address Size] r by simp
  then show "(\<exists>v. readConstantInt little Segs Address Size = Inr (Some v))
           \<longleftrightarrow> (\<exists>Segment \<in> set Segs.
                  StartVirtualAddress Segment \<le> Address
                  \<and> Address + ucast Size < EndVirtualAddress Segment
                  \<and> IsReadable Segment)"
    using r by (cases r) (auto simp: segment_matches_def)
next
  assume "\<forall>Segment \<in> set Segs. holds_address Segment Address
            \<longrightarrow> Address + ucast Size = EndVirtualAddress Segment"
  then have "\<not> (\<exists>Segment \<in> set Segs. segment_matches Segment Address Size)"
    using segment_matches_holds [OF _ assms(3)] by blast
  then show "readConstantInt little Segs Address Size = Inr None"
    by (simp add: readConstantInt_None_iff)
qed

theorem readConstantInt_returns_iff_witness:
  "(\<exists>v. readConstantInt True [example_segment] 0x1000 4 = Inr (Some v))
   \<and> readConstantInt True [example_segment] 0x1001 4 = Inr None"
proof
  have wf: "list_all buffer_matches_range [example_segment]"
    by (simp add: buffer_matches_range_def example_segment_def)
  show "\<exists>v. readConstantInt True [example_segment] 0x1000 4 = Inr (Some v)"
    using readConstantInt_returns_iff [of 4 "[example_segment]" "0x1000" True] wf
    by (simp add: example_segment_def)
  show "readConstantInt True [example_segment] 0x1001 4 = Inr None"
    using readConstantInt_returns_iff [of 4 "[example_segment]" "0x1001" True] wf
    by (simp add: example_segment_def holds_address_def)
qed

text \<open>
  Where \<open>address + size\<close> is not representable the test of the loop wraps around: for the
  address \<open>2^64 - 1\<close> and four bytes the sum is 3, the example segment passes the test, and
  the read lies far outside its buffer.
\<close>

lemma readConstantInt_wrapped_address:
  "segment_matches example_segment 0xFFFFFFFFFFFFFFFF 4
   \<and> readConstantInt True [example_segment] 0xFFFFFFFFFFFFFFFF 4 = Inl UndefinedBehaviour"
  by (simp add: example_segment_def segment_matches_def read_at_def)

section \<open>Properties of block acquisition\<close>

lemma unvisit_loop_result:
  "unvisit_loop F WorkList V = Inr V' \<Longrightarrow> V' |\<subseteq>| V \<and> (\<forall>BB \<in> set WorkList. BB |\<notin>| V')"
proof (induction F WorkList V arbitrary: V' rule: unvisit_loop.induct)
  case (1 F V)
  then show ?case by simp
next
  case (2 F Current WorkList V)
  from "2.prems" obtain pushed where
    pushed: "unvisit_successors F (V |-| {|Current|}) (successors F Current) = Inr pushed"
    and rest: "unvisit_loop F (rev pushed @ WorkList) (V |-| {|Current|}) = Inr V'"
    by (auto simp: Let_def split: sum.splits)
  have "V' |\<subseteq>| V |-| {|Current|} \<and> (\<forall>BB \<in> set (rev pushed @ WorkList). BB |\<notin>| V')"
    using "2.IH" [OF refl pushed rest] .
  then show ?case by auto
qed

lemma unvisit_result:
  assumes "unvisit M BB = Inr M'"
  shows "M' = M\<lparr>Visited := Visited M'\<rparr> \<and> BB |\<notin>| Visited M'"
proof (cases "BB |\<in>| Visited M")
  case True
  then obtain V where V: "unvisit_loop (TheFunction M) [BB] (Visited M) = Inr V"
    and M': "M' = M\<lparr>Visited := V\<rparr>"
    using assms by (auto simp: unvisit_def split: sum.splits)
  show ?thesis
    using unvisit_loop_result [OF V] M' by simp
next
  case False
  then show ?thesis
    using assms by (simp add: unvisit_def)
qed

lemma unvisit_frame:
  assumes "unvisit M BB = Inr M'"
  shows "same_config M M' \<and> TheFunction M' = TheFunction M \<and> JumpTargets M' = JumpTargets M
         \<and> Unexplored M' = Unexplored M \<and> ReliablePCs M' = ReliablePCs M
         \<and> BB |\<notin>| Visited M'"
proof -
  have "M' = M\<lparr>Visited := Visited M'\<rparr>" and nv: "BB |\<notin>| Visited M'"
    using unvisit_result [OF assms] by simp_all
  then obtain V where "M' = M\<lparr>Visited := V\<rparr>" by blast
  then show ?thesis
    using nv by (simp add: same_config_def)
qed

lemma unvisit_empty_block:
  assumes "InstList (TheFunction M) BB = []"
  shows "\<exists>V. unvisit M BB = Inr (M\<lparr>Visited := V\<rparr>)"
proof (cases "BB |\<in>| Visited M")
  case True
  have "successors (TheFunction M) BB = []"
    using assms by (simp add: successors_def)
  then have "unvisit_loop (TheFunction M) [BB] (Visited M) = Inr (Visited M |-| {|BB|})"
    by simp
  then have "unvisit M BB = Inr (M\<lparr>Visited := Visited M |-| {|BB|}\<rparr>)"
    using True by (simp add: unvisit_def)
  then show ?thesis by blast
next
  case False
  then have "unvisit M BB = Inr (M\<lparr>Visited := Visited M\<rparr>)"
    by (simp add: unvisit_def)
  then show ?thesis by blast
qed

lemma unvisit_not_visited:
  "BB |\<notin>| Visited M \<Longrightarrow> unvisit M BB = Inr M"
  by (simp add: unvisit_def)

lemma getBlockAt_promote_result:
  assumes "getBlockAt_promote M I = Inr (NewBlock, M')"
  shows "NewBlock |\<notin>| Visited M' \<and> same_config M M' \<and> JumpTargets M' = JumpTargets M
         \<and> Unexplored M' = Unexplored M \<and> ReliablePCs M' = ReliablePCs M
         \<and> (\<forall>J. InstrAt (TheFunction M') J = InstrAt (TheFunction M) J
                  \<or> InstrAt (TheFunction M') J = BranchInst [NewBlock])"
proof -
  from assms obtain ContainingBlock F where
    split: "(if I = hd (InstList (TheFunction M) ContainingBlock)
             then Inr (ContainingBlock, TheFunction M)
             else splitBasicBlock (TheFunction M) ContainingBlock I) = Inr (NewBlock, F)"
    and un: "unvisit (M\<lparr>TheFunction := F\<rparr>) NewBlock = Inr M'"
    by (auto simp: getBlockAt_promote_def split: option.splits sum.splits)
  have instr: "\<forall>J. InstrAt F J = InstrAt (TheFunction M) J \<or> InstrAt F J = BranchInst [NewBlock]"
    using split by (auto simp: splitBasicBlock_def Let_def split: if_splits)
  show ?thesis
    using unvisit_frame [OF un] instr by (simp add: same_config_def)
qed

lemma getBlockAt_create_result:
  assumes "getBlockAt_create M PC = (NewBlock, M')"
  shows "same_config M M' \<and> JumpTargets M' = JumpTargets M
         \<and> Unexplored M' = Unexplored M @ [(PC, NewBlock)] \<and> ReliablePCs M' = ReliablePCs M
         \<and> Visited M' = Visited M
         \<and> InstrAt (TheFunction M') = InstrAt (TheFunction M)
         \<and> InstList (TheFunction M') NewBlock = []"
  using assms by (auto simp: getBlockAt_create_def Create_def Let_def same_config_def)

lemma addCase_result:
  assumes "addCase F Switch OnVal Dest = Inr F'"
  shows "switchCases F' Switch = switchCases F Switch @ [(OnVal, Dest)]
         \<and> InstList F' = InstList F \<and> (\<exists>Default Cases. InstrAt F Switch = SwitchInst Default Cases)"
  using assms by (auto simp: addCase_def switchCases_def split: Instr.splits)

lemma valid_address_same_config:
  "same_config M M' \<Longrightarrow> valid_address M' PC = valid_address M PC"
  by (simp add: same_config_def valid_address_def isExecutableAddress_def isInstructionAligned_def)

lemma getBlockAt_invalid_result:
  "\<not> valid_address M PC \<Longrightarrow> getBlockAt M PC Reliable = Inr (None, M)"
  by (auto simp: getBlockAt_def valid_address_def)

lemma getBlockAt_known_result:
  assumes "valid_address M PC" and "JumpTargets M PC = Some Target"
    and "getBlockAt M PC Reliable = Inr (Block, M')"
  shows "Block = Some Target \<and> same_config M M' \<and> TheFunction M' = TheFunction M
         \<and> JumpTargets M' = JumpTargets M \<and> Unexplored M' = Unexplored M
         \<and> ReliablePCs M' = (if Reliable then finsert PC (ReliablePCs M) else ReliablePCs M)
         \<and> Target |\<notin>| Visited M'"
proof -
  define M1 where "M1 = (if Reliable then M\<lparr>ReliablePCs := finsert PC (ReliablePCs M)\<rparr> else M)"
  have jt: "JumpTargets M1 PC = Some Target"
    using assms(2) by (simp add: M1_def)
  have same: "same_config M M1" "TheFunction M1 = TheFunction M" "JumpTargets M1 = JumpTargets M"
    "Unexplored M1 = Unexplored M"
    "ReliablePCs M1 = (if Reliable then finsert PC (ReliablePCs M) else ReliablePCs M)"
    by (simp_all add: M1_def same_config_def)
  have "(case unvisit M1 Target of Inl f \<Rightarrow> Inl f | Inr M' \<Rightarrow> Inr (Some Target, M')) = Inr (Block, M')"
    using assms(1,3) jt unfolding getBlockAt_def valid_address_def M1_def [symmetric] Let_def
    by simp
  then have un: "unvisit M1 Target = Inr M'" and "Block = Some Target"
    by (auto split: sum.splits)
  then show ?thesis
    using unvisit_frame [OF un] same by (simp add: same_config_def)
qed

lemma getBlockAt_new_result:
  assumes "valid_address M PC" and "JumpTargets M PC = None"
    and "getBlockAt M PC Reliable = Inr (Block, M')"
  shows "\<exists>NewBlock. Block = Some NewBlock
           \<and> dispatcherCases M'
               = dispatcherCases M @ [(take_bit (ElementBits (PCReg M)) PC, NewBlock)]
           \<and> JumpTargets M' = (JumpTargets M)(PC \<mapsto> NewBlock)
           \<and> same_config M M'
           \<and> ReliablePCs M' = (if Reliable then finsert PC (ReliablePCs M) else ReliablePCs M)
           \<and> (NewBlock |\<notin>| Visited M' \<or> InstList (TheFunction M') NewBlock = [])"
proof -
  define M1 where "M1 = (if Reliable then M\<lparr>ReliablePCs := finsert PC (ReliablePCs M)\<rparr> else M)"
  have jt: "JumpTargets M1 PC = None"
    using assms(2) by (simp add: M1_def)
  have same: "same_config M M1" "TheFunction M1 = TheFunction M" "JumpTargets M1 = JumpTargets M"
    "ReliablePCs M1 = (if Reliable then finsert PC (ReliablePCs M) else ReliablePCs M)"
    by (simp_all add: M1_def same_config_def)
  from assms(1,3) jt obtain NewBlock M2 F where
    acquire: "(case OriginalInstructionAddresses M1 PC of
                 Some I \<Rightarrow> getBlockAt_promote M1 I
               | None \<Rightarrow> Inr (getBlockAt_create M1 PC)) = Inr (NewBlock, M2)"
    and add: "addCase (TheFunction M2) (DispatcherSwitch M2)
                (take_bit (ElementBits (PCReg M2)) PC) NewBlock = Inr F"
    and res: "Block = Some NewBlock"
      "M' = M2\<lparr>TheFunction := F, JumpTargets := (JumpTargets M2)(PC \<mapsto> NewBlock)\<rparr>"
    unfolding getBlockAt_def valid_address_def M1_def [symmetric] Let_def
    by (auto split: sum.splits)
  have frame: "same_config M1 M2 \<and> JumpTargets M2 = JumpTargets M1
      \<and> ReliablePCs M2 = ReliablePCs M1
      \<and> (\<forall>J. InstrAt (TheFunction M2) J = InstrAt (TheFunction M1) J
              \<or> InstrAt (TheFunction M2) J = BranchInst [NewBlock])
      \<and> (NewBlock |\<notin>| Visited M2 \<or> InstList (TheFunction M2) NewBlock = [])"
  proof (cases "OriginalInstructionAddresses M1 PC")
    case None
    then have "getBlockAt_create M1 PC = (NewBlock, M2)"
      using acquire by simp
    from getBlockAt_create_result [OF this] show ?thesis by simp
  next
    case (Some I)
    then have "getBlockAt_promote M1 I = Inr (NewBlock, M2)"
      using acquire by simp
    from getBlockAt_promote_result [OF this] show ?thesis by simp
  qed
  from addCase_result [OF add] obtain Default Cases where
    cases': "switchCases F (DispatcherSwitch M2)
              = switchCases (TheFunction M2) (DispatcherSwitch M2)
                @ [(take_bit (ElementBits (PCReg M2)) PC, NewBlock)]"
    and lists: "InstList F = InstList (TheFunction M2)"
    and sw: "InstrAt (TheFunction M2) (DispatcherSwitch M2) = SwitchInst Default Cases"
    by blast
  have "InstrAt (TheFunction M2) (DispatcherSwitch M2) = InstrAt (TheFunction M1) (DispatcherSwitch M2)"
  proof -
    have "InstrAt (TheFunction M2) (DispatcherSwitch M2) = InstrAt (TheFunction M1) (DispatcherSwitch M2)
        \<or> InstrAt (TheFunction M2) (DispatcherSwitch M2) = BranchInst [NewBlock]"
      using frame by blast
    then show ?thesis using sw by auto
  qed
  then have "switchCases (TheFunction M2) (DispatcherSwitch M2) = dispatcherCases M"
    using frame same by (simp add: dispatcherCases_def switchCases_def same_config_def)
  then show ?thesis
    using res cases' lists frame same by (simp add: dispatcherCases_def same_config_def)
qed

lemma getBlockAt_known_again:
  assumes "valid_address M PC" and "JumpTargets M PC = Some Target"
    and "Target |\<notin>| Visited M \<or> InstList (TheFunction M) Target = []"
  shows "\<exists>M2. getBlockAt M PC Reliable = Inr (Some Target, M2)
              \<and> dispatcherCases M2 = dispatcherCases M"
proof -
  define M1 where "M1 = (if Reliable then M\<lparr>ReliablePCs := finsert PC (ReliablePCs M)\<rparr> else M)"
  have jt: "JumpTargets M1 PC = Some Target"
    and same: "TheFunction M1 = TheFunction M" "DispatcherSwitch M1 = DispatcherSwitch M"
    "Visited M1 = Visited M"
    using assms(2) by (simp_all add: M1_def)
  have call: "getBlockAt M PC Reliable
      = (case unvisit M1 Target of Inl f \<Rightarrow> Inl f | Inr M' \<Rightarrow> Inr (Some Target, M'))"
    using assms(1) jt unfolding getBlockAt_def valid_address_def M1_def [symmetric] Let_def
    by simp
  have "\<exists>V. unvisit M1 Target = Inr (M1\<lparr>Visited := V\<rparr>)"
  proof (cases "Target |\<in>| Visited M1")
    case True
    then have "InstList (TheFunction M1) Target = []"
      using assms(3) same by simp
    then show ?thesis by (rule unvisit_empty_block)
  next
    case False
    then have "unvisit M1 Target = Inr (M1\<lparr>Visited := Visited M1\<rparr>)"
      by (simp add: unvisit_def)
    then show ?thesis by blast
  qed
  then obtain V where "unvisit M1 Target = Inr (M1\<lparr>Visited := V\<rparr>)" by blast
  then have "getBlockAt M PC Reliable = Inr (Some Target, M1\<lparr>Visited := V\<rparr>)"
    using call by simp
  moreover have "dispatcherCases (M1\<lparr>Visited := V\<rparr>) = dispatcherCases M"
    using same by (simp add: dispatcherCases_def)
  ultimately show ?thesis by blast
qed

text \<open>
  C1. For an address that is not executable or not instruction aligned, \<open>getBlockAt\<close>
  returns absent and hands back the manager it was given: \<open>JumpTargets\<close>,
  \<open>OriginalInstructionAddresses\<close>, \<open>Unexplored\<close>, \<open>ReliablePCs\<close> (whatever the reliability
  flag) and the case table of the dispatcher switch are all unchanged.
\<close>

theorem getBlockAt_invalid_address:
  assumes "\<not> isExecutableAddress M PC \<or> \<not> isInstructionAligned M PC"
  shows "getBlockAt M PC Reliable = Inr (None, M)"
  using assms by (simp add: getBlockAt_def)

theorem getBlockAt_invalid_address_witness:
  "\<not> isExecutableAddress example_manager 0x3000
   \<and> getBlockAt example_manager 0x3000 True = Inr (None, example_manager)
   \<and> \<not> isInstructionAligned example_manager 0x1001
   \<and> getBlockAt example_manager 0x1001 True = Inr (None, example_manager)"
proof (intro conjI)
  show outside: "\<not> isExecutableAddress example_manager 0x3000"
    by (simp add: example_defs)
  show misaligned: "\<not> isInstructionAligned example_manager 0x1001"
    by (simp add: example_defs)
  show "getBlockAt example_manager 0x3000 True = Inr (None, example_manager)"
    using getBlockAt_invalid_address [of example_manager "0x3000" True] outside by simp
  show "getBlockAt example_manager 0x1001 True = Inr (None, example_manager)"
    using getBlockAt_invalid_address [of example_manager "0x1001" True] misaligned by simp
qed

text \<open>
  C4. When a call of \<open>getBlockAt\<close> has returned, a second call with the same address and
  the same reliability flag returns the same block, and the case table of the dispatcher
  switch after the second call is the one before it. For a valid address the block
  returned is not null.
\<close>

theorem getBlockAt_idempotent:
  assumes "getBlockAt M PC Reliable = Inr (Block, M1)"
  shows "(\<exists>M2. getBlockAt M1 PC Reliable = Inr (Block, M2)
               \<and> dispatcherCases M2 = dispatcherCases M1)
         \<and> (isExecutableAddress M PC \<and> isInstructionAligned M PC \<longrightarrow> Block \<noteq> None)"
proof (cases "valid_address M PC")
  case False
  then have "getBlockAt M PC Reliable = Inr (None, M)"
    by (rule getBlockAt_invalid_result)
  then have "Block = None" and "M1 = M"
    using assms by simp_all
  then show ?thesis
    using False getBlockAt_invalid_result [OF False, of Reliable]
    by (simp add: valid_address_def)
next
  case True
  have "\<exists>Target. Block = Some Target \<and> JumpTargets M1 PC = Some Target \<and> same_config M M1
          \<and> (Target |\<notin>| Visited M1 \<or> InstList (TheFunction M1) Target = [])"
  proof (cases "JumpTargets M PC")
    case None
    from getBlockAt_new_result [OF True None assms] show ?thesis by auto
  next
    case (Some Target)
    from getBlockAt_known_result [OF True Some assms] Some show ?thesis by simp
  qed
  then obtain Target where Target: "Block = Some Target" "JumpTargets M1 PC = Some Target"
    "same_config M M1" "Target |\<notin>| Visited M1 \<or> InstList (TheFunction M1) Target = []"
    by blast
  have "valid_address M1 PC"
    using True Target(3) by (simp add: valid_address_same_config)
  from getBlockAt_known_again [OF this Target(2,4), of Reliable] show ?thesis
    using Target(1) by simp
qed

theorem getBlockAt_idempotent_witness:
  "\<exists>Block M1 M2. getBlockAt example_manager 0x1000 True = Inr (Some Block, M1)
     \<and> getBlockAt M1 0x1000 True = Inr (Some Block, M2)
     \<and> dispatcherCases M2 = dispatcherCases M1
     \<and> dispatcherCases M1 = [(0x1000, Block)]"
proof -
  obtain Block M1 where first: "getBlockAt example_manager 0x1000 True = Inr (Some Block, M1)"
    and cases1: "dispatcherCases M1 = [(0x1000, Block)]"
    by (simp add: getBlockAt_def getBlockAt_create_def addCase_def dispatcherCases_def
        switchCases_def example_defs)
  from getBlockAt_idempotent [OF first] obtain M2 where
    "getBlockAt M1 0x1000 True = Inr (Some Block, M2)" "dispatcherCases M2 = dispatcherCases M1"
    by blast
  then show ?thesis
    using first cases1 by blast
qed

lemma dispatcher_invariant_step:
  assumes "dispatcher_invariant M" and "JumpTargets M PC = None"
    and "dispatcherCases M' = dispatcherCases M @ [(PC, NewBlock)]"
    and "JumpTargets M' = (JumpTargets M)(PC \<mapsto> NewBlock)"
  shows "dispatcher_invariant M'"
proof -
  have none: "map_of (dispatcherCases M) PC = None"
    using assms(1,2) by (simp add: dispatcher_invariant_def)
  then have keys: "PC \<notin> fst ` set (dispatcherCases M)"
    by (simp add: map_of_eq_None_iff)
  have "map_of (dispatcherCases M @ [(PC, NewBlock)]) = (map_of (dispatcherCases M))(PC \<mapsto> NewBlock)"
  proof (rule ext)
    fix A
    show "map_of (dispatcherCases M @ [(PC, NewBlock)]) A
        = ((map_of (dispatcherCases M))(PC \<mapsto> NewBlock)) A"
      using none by (cases "A = PC") (auto simp: map_add_def split: option.splits)
  qed
  then show ?thesis
    using assms keys by (simp add: dispatcher_invariant_def)
qed

lemma dispatcher_count_step:
  assumes "dispatcher_count M" and "JumpTargets M PC = None"
    and "dispatcherCases M' = dispatcherCases M @ [(Literal, NewBlock)]"
    and "JumpTargets M' = (JumpTargets M)(PC \<mapsto> NewBlock)"
  shows "dispatcher_count M'"
proof -
  have "PC \<notin> dom (JumpTargets M)"
    using assms(2) by (simp add: domIff)
  then show ?thesis
    using assms by (simp add: dispatcher_count_def)
qed

lemma getBlockAt_pristine_total:
  assumes "pristine M"
  shows "\<exists>Block M'. getBlockAt M PC Reliable = Inr (Block, M') \<and> pristine M'"
proof (cases "valid_address M PC")
  case False
  then show ?thesis
    using assms by (simp add: getBlockAt_invalid_result)
next
  case True
  define M1 where "M1 = (if Reliable then M\<lparr>ReliablePCs := finsert PC (ReliablePCs M)\<rparr> else M)"
  have p1: "pristine M1" and same: "JumpTargets M1 = JumpTargets M"
    using assms by (simp_all add: M1_def pristine_def)
  show ?thesis
  proof (cases "JumpTargets M PC")
    case (Some Target)
    have "unvisit M1 Target = Inr M1"
      using p1 by (simp add: unvisit_def pristine_def)
    then have "getBlockAt M PC Reliable = Inr (Some Target, M1)"
      using True Some same unfolding getBlockAt_def valid_address_def M1_def [symmetric] Let_def
      by simp
    then show ?thesis using p1 by blast
  next
    case None
    obtain NewBlock M2 where create: "getBlockAt_create M1 PC = (NewBlock, M2)"
      by (cases "getBlockAt_create M1 PC")
    from getBlockAt_create_result [OF create] have frame: "same_config M1 M2"
      "Visited M2 = Visited M1" "InstrAt (TheFunction M2) = InstrAt (TheFunction M1)"
      by simp_all
    from p1 obtain Default Cases where
      sw: "InstrAt (TheFunction M2) (DispatcherSwitch M2) = SwitchInst Default Cases"
      using frame by (auto simp: pristine_def same_config_def)
    define Literal where "Literal = take_bit (ElementBits (PCReg M2)) PC"
    define F where "F = (TheFunction M2)\<lparr>InstrAt := (InstrAt (TheFunction M2))
      (DispatcherSwitch M2 := SwitchInst Default (Cases @ [(Literal, NewBlock)]))\<rparr>"
    have add: "addCase (TheFunction M2) (DispatcherSwitch M2) Literal NewBlock = Inr F"
      using sw by (simp add: addCase_def F_def)
    define M' where "M' = M2\<lparr>TheFunction := F, JumpTargets := (JumpTargets M2)(PC \<mapsto> NewBlock)\<rparr>"
    have "getBlockAt M PC Reliable = Inr (Some NewBlock, M')"
      using True None same p1 create add
      unfolding getBlockAt_def valid_address_def M1_def [symmetric] Let_def M'_def Literal_def
      by (simp add: pristine_def)
    moreover have "pristine M'"
      using p1 frame by (simp add: pristine_def M'_def F_def same_config_def)
    ultimately show ?thesis by blast
  qed
qed

lemma fits_register_same_config:
  "same_config M M' \<Longrightarrow> fits_register M' PC = fits_register M PC"
  by (simp add: same_config_def fits_register_def)

lemma getBlockAt_invariant:
  assumes "getBlockAt M PC Reliable = Inr (Block, M')"
  shows "same_config M M'
         \<and> dom (JumpTargets M') = dom (JumpTargets M) \<union> {A. A = PC \<and> valid_address M PC}
         \<and> (dispatcher_count M \<longrightarrow> dispatcher_count M')
         \<and> (dispatcher_invariant M \<and> (valid_address M PC \<longrightarrow> fits_register M PC)
              \<longrightarrow> dispatcher_invariant M')"
proof (cases "valid_address M PC")
  case False
  then have "M' = M"
    using assms by (simp add: getBlockAt_invalid_result)
  then show ?thesis
    using False by (simp add: same_config_def)
next
  case True
  show ?thesis
  proof (cases "JumpTargets M PC")
    case None
    from getBlockAt_new_result [OF True None assms] obtain NewBlock where
      new: "dispatcherCases M'
              = dispatcherCases M @ [(take_bit (ElementBits (PCReg M)) PC, NewBlock)]"
      "JumpTargets M' = (JumpTargets M)(PC \<mapsto> NewBlock)" "same_config M M'"
      by blast
    have count: "dispatcher_count M \<longrightarrow> dispatcher_count M'"
      using None new(1,2) by (blast intro: dispatcher_count_step)
    have "dispatcher_invariant M \<and> (valid_address M PC \<longrightarrow> fits_register M PC)
        \<longrightarrow> dispatcher_invariant M'"
    proof
      assume a: "dispatcher_invariant M \<and> (valid_address M PC \<longrightarrow> fits_register M PC)"
      then have "dispatcherCases M' = dispatcherCases M @ [(PC, NewBlock)]"
        using new(1) True by (simp add: fits_register_def)
      with a None new(2) show "dispatcher_invariant M'"
        by (blast intro: dispatcher_invariant_step)
    qed
    then show ?thesis
      using new True count by auto
  next
    case (Some Target)
    from getBlockAt_known_result [OF True Some assms] have
      known: "same_config M M'" "TheFunction M' = TheFunction M" "JumpTargets M' = JumpTargets M"
      by simp_all
    then have "dispatcherCases M' = dispatcherCases M"
      by (simp add: dispatcherCases_def same_config_def)
    then show ?thesis
      using known Some True by (auto simp: dispatcher_invariant_def dispatcher_count_def)
  qed
qed

lemma same_config_trans:
  "same_config M M' \<Longrightarrow> same_config M' M'' \<Longrightarrow> same_config M M''"
  by (simp add: same_config_def)

lemma getBlockAt_sequence_invariant:
  assumes "pristine M"
  shows "\<exists>M'. getBlockAt_sequence M requests = Inr M'
           \<and> same_config M M'
           \<and> dom (JumpTargets M') = dom (JumpTargets M) \<union> {PC \<in> fst ` set requests. valid_address M PC}
           \<and> (dispatcher_count M \<longrightarrow> dispatcher_count M')
           \<and> (dispatcher_invariant M
                \<and> (\<forall>PC \<in> fst ` set requests. valid_address M PC \<longrightarrow> fits_register M PC)
                \<longrightarrow> dispatcher_invariant M')"
  using assms
proof (induction requests arbitrary: M)
  case Nil
  then show ?case by (simp add: same_config_def)
next
  case (Cons request requests)
  obtain Block M1 where call: "getBlockAt M (fst request) (snd request) = Inr (Block, M1)"
    and p1: "pristine M1"
    using getBlockAt_pristine_total [OF Cons.prems] by blast
  from getBlockAt_invariant [OF call] have
    cfg: "same_config M M1"
    and dom1: "dom (JumpTargets M1) = dom (JumpTargets M) \<union> {A. A = fst request \<and> valid_address M (fst request)}"
    and count1: "dispatcher_count M \<longrightarrow> dispatcher_count M1"
    and inv1: "dispatcher_invariant M
        \<and> (valid_address M (fst request) \<longrightarrow> fits_register M (fst request))
        \<longrightarrow> dispatcher_invariant M1"
    by simp_all
  from Cons.IH [OF p1] obtain M' where
    run: "getBlockAt_sequence M1 requests = Inr M'"
    and cfg': "same_config M1 M'"
    and dom': "dom (JumpTargets M') = dom (JumpTargets M1) \<union> {PC \<in> fst ` set requests. valid_address M1 PC}"
    and count': "dispatcher_count M1 \<longrightarrow> dispatcher_count M'"
    and inv': "dispatcher_invariant M1
        \<and> (\<forall>PC \<in> fst ` set requests. valid_address M1 PC \<longrightarrow> fits_register M1 PC)
        \<longrightarrow> dispatcher_invariant M'"
    by blast
  have "getBlockAt_sequence M (request # requests) = Inr M'"
    using call run by simp
  moreover have "same_config M M'"
    using cfg cfg' by (rule same_config_trans)
  moreover have "dom (JumpTargets M') =
      dom (JumpTargets M) \<union> {PC \<in> fst ` set (request # requests). valid_address M PC}"
    using dom1 dom' valid_address_same_config [OF cfg] by auto
  moreover have "dispatcher_count M \<longrightarrow> dispatcher_count M'"
    using count1 count' by blast
  moreover have "dispatcher_invariant M
      \<and> (\<forall>PC \<in> fst ` set (request # requests). valid_address M PC \<longrightarrow> fits_register M PC)
      \<longrightarrow> dispatcher_invariant M'"
    using inv1 inv' fits_register_same_config [OF cfg] valid_address_same_config [OF cfg]
    by simp
  ultimately show ?case
    by blast
qed

lemma appendInst_result:
  "appendInst F BB new = (I, F') \<Longrightarrow> InstrAt F' I = new"
  by (auto simp: appendInst_def Let_def)

lemma createDispatcher_switch:
  "\<exists>Entry Switch F Default. createDispatcher F0 = (Entry, Switch, F)
     \<and> InstrAt F Switch = SwitchInst Default []"
proof -
  obtain Entry F1 where 1: "Create F0 ''dispatcher.entry'' = (Entry, F1)"
    by (cases "Create F0 ''dispatcher.entry''")
  obtain Default F2 where 2: "Create F1 ''dispatcher.default'' = (Default, F2)"
    by (cases "Create F1 ''dispatcher.default''")
  obtain UnknownPC F3 where 3: "appendInst F2 Default (CallInst (Some ''unknownPC'') []) = (UnknownPC, F3)"
    by (cases "appendInst F2 Default (CallInst (Some ''unknownPC'') [])")
  obtain Unreach F4 where 4: "appendInst F3 Default UnreachableInst = (Unreach, F4)"
    by (cases "appendInst F3 Default UnreachableInst")
  obtain SwitchOn F5 where 5: "appendInst F4 Entry OtherInst = (SwitchOn, F5)"
    by (cases "appendInst F4 Entry OtherInst")
  obtain Switch F6 where 6: "appendInst F5 Entry (SwitchInst Default []) = (Switch, F6)"
    by (cases "appendInst F5 Entry (SwitchInst Default [])")
  have "createDispatcher F0 = (Entry, Switch, F6)"
    unfolding createDispatcher_def by (simp only: 1 2 3 4 5 6 Let_def prod.case)
  moreover have "InstrAt F6 Switch = SwitchInst Default []"
    using 6 by (rule appendInst_result)
  ultimately show ?thesis by blast
qed

lemma JumpTargetManager_new_pristine:
  "pristine (JumpTargetManager_new F0 PCReg0 Arch Segs OSRA)
   \<and> dispatcherCases (JumpTargetManager_new F0 PCReg0 Arch Segs OSRA) = []
   \<and> JumpTargets (JumpTargetManager_new F0 PCReg0 Arch Segs OSRA) = Map.empty
   \<and> PCReg (JumpTargetManager_new F0 PCReg0 Arch Segs OSRA) = PCReg0"
proof -
  obtain Entry Switch F Default where "createDispatcher F0 = (Entry, Switch, F)"
    and "InstrAt F Switch = SwitchInst Default []"
    using createDispatcher_switch [of F0] by blast
  then show ?thesis
    by (simp add: JumpTargetManager_new_def pristine_def dispatcherCases_def switchCases_def)
qed

lemma distinct_keys_filter:
  "distinct (map fst cs) \<Longrightarrow> map_of cs k = Some v \<Longrightarrow> filter (\<lambda>c. fst c = k) cs = [(k, v)]"
proof (induction cs)
  case Nil
  then show ?case by simp
next
  case (Cons c cs)
  show ?case
  proof (cases "fst c = k")
    case True
    then have "k \<notin> fst ` set cs"
      using Cons.prems(1) by auto
    then have "filter (\<lambda>c. fst c = k) cs = []"
      by (auto simp: filter_empty_conv)
    then show ?thesis
      using True Cons.prems(2) by (cases c) simp
  next
    case False
    then show ?thesis
      using Cons by (cases c) auto
  qed
qed

text \<open>
  C9. As stated for every valid address the claim fails on the code: the literal of a case
  is the address cut to the width of the program counter register, so an address that
  does not fit has no case with its own literal (see the counterexample below). What
  holds: any sequence of \<open>getBlockAt\<close> calls on a newly constructed manager runs to its end;
  after it the addresses in \<open>JumpTargets\<close> are the valid addresses among those requested,
  and the dispatcher switch has as many cases as there are such addresses; and when these
  addresses fit the width of the register, every address in \<open>JumpTargets\<close> has exactly one
  case with its literal, whose destination is the block of the address.
\<close>

theorem dispatcher_completeness:
  "\<exists>M. getBlockAt_sequence (JumpTargetManager_new F0 PCReg0 Arch Segs OSRA) requests = Inr M
     \<and> dom (JumpTargets M)
         = {PC \<in> fst ` set requests. isExecutableAddress M PC \<and> isInstructionAligned M PC}
     \<and> length (dispatcherCases M)
         = card {PC \<in> fst ` set requests. isExecutableAddress M PC \<and> isInstructionAligned M PC}
     \<and> ((\<forall>PC \<in> dom (JumpTargets M). take_bit (ElementBits PCReg0) PC = PC)
          \<longrightarrow> (\<forall>PC Block. JumpTargets M PC = Some Block
                 \<longrightarrow> filter (\<lambda>c. fst c = PC) (dispatcherCases M) = [(PC, Block)]))"
proof -
  define M0 where "M0 = JumpTargetManager_new F0 PCReg0 Arch Segs OSRA"
  have start: "pristine M0" "dispatcher_invariant M0" "JumpTargets M0 = Map.empty"
    "dispatcher_count M0" "PCReg M0 = PCReg0"
    using JumpTargetManager_new_pristine [of F0 PCReg0 Arch Segs OSRA]
    by (simp_all add: M0_def dispatcher_invariant_def dispatcher_count_def)
  from getBlockAt_sequence_invariant [OF start(1), of requests] obtain M where
    run: "getBlockAt_sequence M0 requests = Inr M"
    and cfg: "same_config M0 M"
    and dom: "dom (JumpTargets M) = dom (JumpTargets M0) \<union> {PC \<in> fst ` set requests. valid_address M0 PC}"
    and count: "dispatcher_count M0 \<longrightarrow> dispatcher_count M"
    and inv: "dispatcher_invariant M0
        \<and> (\<forall>PC \<in> fst ` set requests. valid_address M0 PC \<longrightarrow> fits_register M0 PC)
        \<longrightarrow> dispatcher_invariant M"
    by blast
  have domain: "dom (JumpTargets M)
      = {PC \<in> fst ` set requests. isExecutableAddress M PC \<and> isInstructionAligned M PC}"
    using dom start(3) valid_address_same_config [OF cfg] by (simp add: valid_address_def)
  then have number: "length (dispatcherCases M)
      = card {PC \<in> fst ` set requests. isExecutableAddress M PC \<and> isInstructionAligned M PC}"
    using count start(4) by (simp add: dispatcher_count_def)
  have one: "\<forall>PC Block. JumpTargets M PC = Some Block
      \<longrightarrow> filter (\<lambda>c. fst c = PC) (dispatcherCases M) = [(PC, Block)]"
    if fit: "\<forall>PC \<in> dom (JumpTargets M). take_bit (ElementBits PCReg0) PC = PC"
  proof -
    have "\<forall>PC \<in> fst ` set requests. valid_address M0 PC \<longrightarrow> fits_register M0 PC"
    proof (intro ballI impI)
      fix PC
      assume "PC \<in> fst ` set requests" and "valid_address M0 PC"
      then have "PC \<in> dom (JumpTargets M)"
        unfolding dom by simp
      then show "fits_register M0 PC"
        using fit start(5) by (simp add: fits_register_def)
    qed
    then have "dispatcher_invariant M"
      using inv start(2) by simp
    then show ?thesis
      by (auto simp: dispatcher_invariant_def intro: distinct_keys_filter)
  qed
  show ?thesis
    using run domain number one unfolding M0_def by blast
qed

theorem dispatcher_completeness_witness:
  "\<exists>M Block. getBlockAt_sequence example_manager example_requests = Inr M
     \<and> dom (JumpTargets M) = {0x1000, 0x1004}
     \<and> JumpTargets M 0x1000 = Some Block
     \<and> filter (\<lambda>c. fst c = 0x1000) (dispatcherCases M) = [(0x1000, Block)]
     \<and> length (dispatcherCases M) = 2"
proof -
  obtain M where run: "getBlockAt_sequence example_manager example_requests = Inr M"
    and one: "(\<forall>PC \<in> dom (JumpTargets M). take_bit (ElementBits example_pcreg) PC = PC)
           \<longrightarrow> (\<forall>PC Block. JumpTargets M PC = Some Block
                  \<longrightarrow> filter (\<lambda>c. fst c = PC) (dispatcherCases M) = [(PC, Block)])"
    using dispatcher_completeness [of example_function example_pcreg example_architecture
        "[example_code, example_data]" False example_requests]
    unfolding example_manager_def by blast
  have "\<exists>M' Block. getBlockAt_sequence example_manager example_requests = Inr M'
          \<and> dom (JumpTargets M') = {0x1000, 0x1004}
          \<and> JumpTargets M' 0x1000 = Some Block \<and> length (dispatcherCases M') = 2"
    by (simp add: example_requests_def getBlockAt_def getBlockAt_create_def addCase_def
        dispatcherCases_def switchCases_def unvisit_def take_bit_eq_mod insert_commute
        example_defs)
  then obtain Block where result: "dom (JumpTargets M) = {0x1000, 0x1004}"
    "JumpTargets M 0x1000 = Some Block" "length (dispatcherCases M) = 2"
    using run by auto
  have "\<forall>PC \<in> dom (JumpTargets M). take_bit (ElementBits example_pcreg) PC = PC"
    using result(1) by (simp add: example_pcreg_def take_bit_eq_mod)
  then show ?thesis
    using run one result by blast
qed

text \<open>
  The counterexample: with a 32-bit program counter register and executable bytes at
  0x1000 and at 0x100001000, both addresses are valid and both get a block, and both cases
  have the literal 0x1000. The address 0x100001000 has no case with its literal, and
  0x1000 has two.
\<close>

theorem dispatcher_completeness_counterexample:
  "(case getBlockAt_sequence example_narrow_manager example_narrow_requests of
      Inl f \<Rightarrow> False
    | Inr M \<Rightarrow>
        isExecutableAddress M 0x100001000 \<and> isInstructionAligned M 0x100001000
        \<and> JumpTargets M 0x100001000 \<noteq> None
        \<and> map fst (dispatcherCases M) = [0x1000, 0x1000]
        \<and> filter (\<lambda>c. fst c = 0x100001000) (dispatcherCases M) = [])"
  by (simp add: example_narrow_requests_def example_narrow_manager_def example_narrow_pcreg_def
      example_high_code_def getBlockAt_def getBlockAt_create_def addCase_def dispatcherCases_def
      switchCases_def unvisit_def take_bit_eq_mod example_defs)

text \<open>
  Case 2 on an example: the second instruction of block 1 is registered at 0x1004, and
  \<open>getBlockAt\<close> splits the block there. The new block holds the instructions from the
  second on, the old block branches to it, and the switch has the new case.
\<close>

lemma getBlockAt_split_example:
  "\<exists>M1 M2 NewBlock. registerInstruction example_unmarked_manager 0x1004 2 = Inr M1
     \<and> getBlockAt M1 0x1004 False = Inr (Some NewBlock, M2)
     \<and> NewBlock \<noteq> 1
     \<and> InstList (TheFunction M2) NewBlock = [2, 3]
     \<and> successors (TheFunction M2) 1 = [NewBlock]
     \<and> dispatcherCases M2 = [(0x1004, NewBlock)]"
  by (simp add: registerInstruction_def getBlockAt_def getBlockAt_promote_def unvisit_def
      addCase_def splitBasicBlock_def hasTerminator_def getParent_def successors_def
      dispatcherCases_def switchCases_def
      example_unmarked_manager_def example_unmarked_def example_defs)

section \<open>Properties of harvesting\<close>

text \<open>
  The words \<open>findCodePointers\<close> passes to \<open>getBlockAt\<close> are those at the offsets below
  \<open>length bytes - width\<close>: the offset \<open>length bytes - width\<close> itself, where the word ends with
  the last byte, is not among them.
\<close>

lemma findCodePointers_requests:
  "findCodePointers width little M bytes
     = getBlockAt_sequence M
         (map (\<lambda>offset. (endian_read little (take width (drop offset bytes)), False))
            [0 ..< length bytes - width])"
proof (induction bytes arbitrary: M)
  case Nil
  then show ?case by simp
next
  case (Cons b bytes)
  show ?case
  proof (cases "width < length (b # bytes)")
    case False
    then show ?thesis by simp
  next
    case True
    then have "[0 ..< length (b # bytes) - width] = 0 # map Suc [0 ..< length bytes - width]"
      by (simp add: upt_conv_Cons Suc_diff_le map_Suc_upt del: upt_Suc)
    then show ?thesis
      using True Cons.IH by (auto simp: comp_def split: sum.splits)
  qed
qed

text \<open>
  C2. The claim that a word is read at every offset at which a full word fits, the last
  one included, fails on the code. The data segment of the example is eight bytes long and
  holds the pointer 0x1000, a valid address with no block yet; a full word fits at offset
  0 and ends with the last byte of the segment. \<open>harvestGlobalData\<close> returns the manager
  unchanged: the word is never passed to \<open>getBlockAt\<close>.
\<close>

theorem harvestGlobalData_skips_last_word:
  "length (RawData example_data) = 8
   \<and> endian_read True (RawData example_data) = 0x1000
   \<and> isExecutableAddress example_manager 0x1000
   \<and> isInstructionAligned example_manager 0x1000
   \<and> JumpTargets example_manager 0x1000 = None
   \<and> harvestGlobalData example_manager = Inr example_manager"
  by (simp add: harvestGlobalData_def getBlockAt_def endian_read_def example_defs)

section \<open>Properties of the sum jump test and of the direct branch pass\<close>

lemma isSumJump_loop_walk:
  "isSumJump_loop WorkList \<longleftrightarrow> (\<exists>V \<in> set (isSumJump_walk WorkList). isAddOrOr V)"
  by (induction WorkList rule: isSumJump_loop.induct) auto

text \<open>
  C5. \<open>isSumJump\<close> answers yes for \<open>add(load(x), constant)\<close>, no for
  \<open>and(load(x), constant)\<close> and no for a constant. In general it answers yes exactly when
  its walk reaches an \<open>add\<close> or an \<open>or\<close>; the walk goes on from a shift or an \<open>and\<close> into
  the operands that are not constants and stops at any other binary operator, for which,
  as for any value that is no constant, load or binary operator, the answer is no.
\<close>

theorem isSumJump_classification:
  "isSumJump (BinaryOperator Add (LoadInst x) (ConstantInt bits c))
   \<and> \<not> isSumJump (BinaryOperator And (LoadInst x) (ConstantInt bits c))
   \<and> \<not> isSumJump (ConstantInt bits c)
   \<and> (isSumJump V \<longleftrightarrow> (\<exists>W \<in> set (isSumJump_walk [V]). isAddOrOr W))
   \<and> isSumJump_walk [BinaryOperator Opcode Op0 Op1]
       = BinaryOperator Opcode Op0 Op1 #
         (if Opcode = Shl \<or> Opcode = LShr \<or> Opcode = AShr \<or> Opcode = And
          then isSumJump_walk (filter (\<lambda>Operand. \<not> isConstant Operand) [Op0, Op1])
          else [])
   \<and> isSumJump (BinaryOperator Opcode Op0 Op1)
       = (if Opcode = Add \<or> Opcode = Or then True
          else if Opcode = Shl \<or> Opcode = LShr \<or> Opcode = AShr \<or> Opcode = And
          then isSumJump_loop (filter (\<lambda>Operand. \<not> isConstant Operand) [Op0, Op1])
          else False)
   \<and> \<not> isSumJump OtherValue"
proof (intro conjI)
  show "isSumJump V \<longleftrightarrow> (\<exists>W \<in> set (isSumJump_walk [V]). isAddOrOr W)"
    unfolding isSumJump_def by (rule isSumJump_loop_walk)
qed (simp_all add: isSumJump_def)

text \<open>
  The first value of the walk that is neither passed over nor propagated decides: an \<open>and\<close>
  of a \<open>sub\<close> and an \<open>add\<close> is no sum jump, since the walk stops at the \<open>sub\<close>, and with
  the operands in the other order it is one.
\<close>

lemma isSumJump_first_decides:
  "\<not> isSumJump (BinaryOperator And (BinaryOperator Sub OtherValue OtherValue)
                    (BinaryOperator Add OtherValue OtherValue))
   \<and> isSumJump (BinaryOperator And (BinaryOperator Add OtherValue OtherValue)
                  (BinaryOperator Sub OtherValue OtherValue))"
  by (simp add: isSumJump_def)

lemma isSumJump_constant: "\<not> isSumJump (ConstantInt bits v)"
  by (simp add: isSumJump_def)

text \<open>
  In every call of \<open>getBlockAt\<close> for a valid address that returns, the address joins
  \<open>ReliablePCs\<close> exactly when the flag is set.
\<close>

lemma getBlockAt_ReliablePCs:
  assumes "valid_address M PC" and "getBlockAt M PC Reliable = Inr (Block, M')"
  shows "ReliablePCs M' = (if Reliable then finsert PC (ReliablePCs M) else ReliablePCs M)"
proof (cases "JumpTargets M PC")
  case None
  from getBlockAt_new_result [OF assms(1) None assms(2)] show ?thesis by blast
next
  case (Some Target)
  from getBlockAt_known_result [OF assms(1) Some assms(2)] show ?thesis by simp
qed

text \<open>
  C6. When the program counter write before a call of \<open>exitTB\<close> stores an integer
  constant, what the pass does to the manager is one call of \<open>getBlockAt\<close>: the address
  passed is the sign-extended constant, and the reliability flag passed is true exactly
  when the fall-through address is not zero and differs from that target. The pass stops
  with a fault when that call does, and otherwise leaves the manager the call returns.
  When the target is a valid address, \<open>ReliablePCs\<close> after the call is \<open>ReliablePCs\<close> before
  it, with the target added exactly when the flag is true; a jump to the fall-through
  address adds nothing.
\<close>

theorem direct_branch_reliability:
  assumes "getPrevPCWrite M Call = Inr (Some PCWrite)"
    and "InstrAt (TheFunction M) PCWrite = StoreInst (ConstantInt bits v) Pointer"
  shows "runOnFunction_resolve M getNextPC Call
           = (case getBlockAt M (getSExtValue bits v)
                     (getNextPC PCWrite \<noteq> 0 \<and> getSExtValue bits v \<noteq> getNextPC PCWrite) of
                Inl f \<Rightarrow> Inl f
              | Inr (Block, M') \<Rightarrow>
                  Inr ([(getSExtValue bits v,
                         getNextPC PCWrite \<noteq> 0 \<and> getSExtValue bits v \<noteq> getNextPC PCWrite)],
                       M'))
         \<and> (\<forall>requests M'.
               runOnFunction_resolve M getNextPC Call = Inr (requests, M')
               \<and> isExecutableAddress M (getSExtValue bits v)
               \<and> isInstructionAligned M (getSExtValue bits v)
               \<longrightarrow> ReliablePCs M'
                     = (if getNextPC PCWrite \<noteq> 0 \<and> getSExtValue bits v \<noteq> getNextPC PCWrite
                        then finsert (getSExtValue bits v) (ReliablePCs M)
                        else ReliablePCs M))"
proof -
  define TargetPC where "TargetPC = getSExtValue bits v"
  define IsReliable where "IsReliable \<longleftrightarrow> getNextPC PCWrite \<noteq> 0 \<and> TargetPC \<noteq> getNextPC PCWrite"
  have requests: "directBranchRequests (EnableOSRA M) (getNextPC PCWrite) (ConstantInt bits v)
      = [(TargetPC, IsReliable)]"
    by (simp add: directBranchRequests_def isSumJump_constant TargetPC_def IsReliable_def Let_def)
  have run: "runOnFunction_resolve M getNextPC Call
      = (case getBlockAt M TargetPC IsReliable of
           Inl f \<Rightarrow> Inl f
         | Inr (Block, M') \<Rightarrow> Inr ([(TargetPC, IsReliable)], M'))"
    using assms requests
    by (simp add: runOnFunction_resolve_def Let_def split: sum.splits prod.splits)
  have "ReliablePCs M' = (if IsReliable then finsert TargetPC (ReliablePCs M) else ReliablePCs M)"
    if "runOnFunction_resolve M getNextPC Call = Inr (requests', M')"
      and valid: "isExecutableAddress M TargetPC \<and> isInstructionAligned M TargetPC"
    for requests' M'
  proof -
    from that(1) obtain Block where "getBlockAt M TargetPC IsReliable = Inr (Block, M')"
      unfolding run by (auto split: sum.splits prod.splits)
    with valid show ?thesis
      by (intro getBlockAt_ReliablePCs) (simp_all add: valid_address_def)
  qed
  then show ?thesis
    using run unfolding TargetPC_def IsReliable_def by blast
qed

theorem direct_branch_reliability_witness:
  "(\<exists>M'. runOnFunction_resolve example_translated_manager (\<lambda>I. 0x1004) 3
            = Inr ([(0x1008, True)], M')
          \<and> ReliablePCs M' = {|0x1008|})
   \<and> (\<exists>M'. runOnFunction_resolve example_translated_manager (\<lambda>I. 0x1008) 3
              = Inr ([(0x1008, False)], M')
            \<and> ReliablePCs M' = {||})"
proof -
  have prev: "getPrevPCWrite example_translated_manager 3 = Inr (Some 2)"
    by (simp add: getPrevPCWrite_def getParent_def example_translated_manager_def
        example_translated_def example_defs)
  have store: "InstrAt (TheFunction example_translated_manager) 2
      = StoreInst (ConstantInt 64 0x1008) 0"
    by (simp add: example_translated_manager_def example_translated_def example_defs)
  have valid: "isExecutableAddress example_translated_manager 0x1008"
    "isInstructionAligned example_translated_manager 0x1008"
    "ReliablePCs example_translated_manager = {||}"
    by (simp_all add: example_translated_manager_def example_translated_def example_defs)
  have target: "getSExtValue 64 0x1008 = 0x1008"
    by (simp add: getSExtValue_def)
  have pristine: "pristine example_translated_manager"
    using JumpTargetManager_new_pristine [of example_translated example_pcreg
        example_architecture "[example_code]" False]
    by (simp add: example_translated_manager_def)
  have "\<exists>M'. runOnFunction_resolve example_translated_manager getNextPC 3
          = Inr ([(0x1008, getNextPC 2 \<noteq> 0 \<and> 0x1008 \<noteq> getNextPC 2)], M')
        \<and> ReliablePCs M' = (if getNextPC 2 \<noteq> 0 \<and> 0x1008 \<noteq> getNextPC 2 then {|0x1008|} else {||})"
    for getNextPC
  proof -
    define IsReliable where "IsReliable \<longleftrightarrow> getNextPC 2 \<noteq> 0 \<and> 0x1008 \<noteq> getNextPC 2"
    obtain Block M' where
      call: "getBlockAt example_translated_manager 0x1008 IsReliable = Inr (Block, M')"
      using getBlockAt_pristine_total [OF pristine] by blast
    note pass = direct_branch_reliability [OF prev store, of getNextPC, unfolded target,
        folded IsReliable_def]
    from pass have
      run: "runOnFunction_resolve example_translated_manager getNextPC 3
          = Inr ([(0x1008, IsReliable)], M')"
      by (simp add: call)
    from pass run valid have "ReliablePCs M' = (if IsReliable then {|0x1008|} else {||})"
      by simp
    with run show ?thesis
      unfolding IsReliable_def by blast
  qed
  from this [of "\<lambda>I. 0x1004"] this [of "\<lambda>I. 0x1008"] show ?thesis
    by simp
qed

section \<open>Properties of \<open>getPC\<close> and \<open>registerBlock\<close>\<close>

lemmas getPC_defs =
  getPC_def getParent_def getPC_loop.simps getPC_result_def predecessors_def successors_def

text \<open>
  C7. The claim that \<open>getPC\<close> returns the sentinel only for two distinct markers, or for
  none, and the marker's address and size otherwise, fails on the code. In the diamond
  the only marker is the one of 0x1000 in block 1. From instruction 21 of block 2 the
  search returns it. From instruction 41 of block 4 the search enqueues block 1 twice, once
  from block 2 and once from block 3, since a block joins \<open>Visited\<close> only when it is taken
  from the queue; the second visit finds the same marker again and returns the sentinel.
\<close>

theorem getPC_diamond:
  "getPC example_diamond_manager 41 = Some (Inr (0, 0))
   \<and> getPC example_diamond_manager 21 = Some (Inr (0x1000, 4))"
  by (simp add: getPC_defs example_diamond_manager_def example_diamond_def example_defs)

text \<open>
  With a marker on each of two paths the search from block 4 returns the marker of block
  2: once a marker is found no predecessor is explored any more, so the marker of block 1,
  two blocks behind block 3, is never met. Blocks 2 and 3 are both dequeued before block 5
  is, so the answer is the same in whichever order the predecessors of block 4 are listed.
\<close>

lemma getPC_second_marker_not_met:
  "getPC example_two_markers_manager 41 = Some (Inr (0x1000, 4))
   \<and> getPC (JumpTargetManager_new example_two_markers_reversed example_pcreg
              example_architecture [example_code] False) 41 = Some (Inr (0x1000, 4))"
  by (simp add: getPC_defs example_two_markers_manager_def example_two_markers_reversed_def
      example_two_markers_def example_defs)

text \<open>
  When the block of the instruction is a destination of the dispatcher switch, here after
  \<open>getBlockAt\<close> has promoted the first instruction of block 1 to a jump target, the search
  stops at the assertion on the predecessors.
\<close>

lemma getPC_dispatcher_predecessor:
  "\<exists>M1 M2. registerInstruction example_unmarked_manager 0x1000 1 = Inr M1
     \<and> getBlockAt M1 0x1000 False = Inr (Some 1, M2)
     \<and> Dispatcher M2 \<in> set (predecessors (TheFunction M2) 1)
     \<and> getPC M2 2 = Some (Inl AssertionFailure)"
  by (simp add: registerInstruction_def getBlockAt_def getBlockAt_promote_def unvisit_def
      addCase_def getPC_defs example_unmarked_manager_def example_unmarked_def example_defs)

text \<open>
  C10. The claim that \<open>registerBlock\<close> reads only entries that are present and leaves the
  address mapped to the block fails on the code: for an address that is not in
  \<open>JumpTargets\<close> the test after the assertion reads \<open>It->second\<close> through the end iterator.
\<close>

theorem registerBlock_absent_address:
  assumes "JumpTargets M PC = None"
  shows "registerBlock M PC Block = Inl UndefinedBehaviour"
  using assms by (simp add: registerBlock_def)

theorem registerBlock_absent_address_witness:
  "JumpTargets example_manager 0x1000 = None
   \<and> registerBlock example_manager 0x1000 7 = Inl UndefinedBehaviour"
proof -
  have absent: "JumpTargets example_manager 0x1000 = None"
    by (simp add: example_defs)
  from registerBlock_absent_address [OF absent, of 7] absent show ?thesis by simp
qed

text \<open>In no run without a fault does \<open>registerBlock\<close> store anything.\<close>

lemma registerBlock_never_stores:
  "registerBlock M PC Block = Inr M' \<Longrightarrow> M' = M"
  by (auto simp: registerBlock_def split: option.splits if_splits)

end
